theory Spec2Isabelle
  imports Complex_Main
begin

section \<open>Values, errors and the numpy operations the notebook uses\<close>

text \<open>
  The notebook \<^verbatim>\<open>Automatic_Speech_Recognition_HMM.ipynb\<close> computes on numpy arrays of
  float64. Two arithmetics are used for them. The type \<open>npfloat\<close> is an exact real or one
  of the three special values, and its operations are exact on finite values: they do
  not round, underflow or overflow. It carries the worked runs of the notebook's functions,
  whose quantities lie far from the limits of the float64 range and whose stated deviations
  are far above rounding. The type \<open>float64\<close>, defined after it, rounds every result as
  IEEE 754 does; what \<^verbatim>\<open>calculate_gamma\<close> returns at underflow, at overflow and in the
  presence of rounding is stated there. In both, the sign of zero is not modelled (a zero
  divisor is taken as +0.0), and division follows numpy: a zero divisor gives nan or an
  infinity and raises nothing.
\<close>

datatype py_error = IndexError | ValueError | ZeroDivisionError | TypeError

datatype npfloat = Fin real | PInf | NInf | NaN

instantiation npfloat :: "{zero,one,plus,times,uminus,minus,abs,inverse,ord}"
begin

definition zero_npfloat :: npfloat where "zero_npfloat = Fin 0"

definition one_npfloat :: npfloat where "one_npfloat = Fin 1"

fun plus_npfloat :: "npfloat \<Rightarrow> npfloat \<Rightarrow> npfloat" where
  "plus_npfloat (Fin a) (Fin b) = Fin (a + b)"
| "plus_npfloat NaN y = NaN"
| "plus_npfloat x NaN = NaN"
| "plus_npfloat PInf NInf = NaN"
| "plus_npfloat NInf PInf = NaN"
| "plus_npfloat PInf y = PInf"
| "plus_npfloat x PInf = PInf"
| "plus_npfloat NInf y = NInf"
| "plus_npfloat x NInf = NInf"

fun uminus_npfloat :: "npfloat \<Rightarrow> npfloat" where
  "uminus_npfloat (Fin a) = Fin (- a)"
| "uminus_npfloat PInf = NInf"
| "uminus_npfloat NInf = PInf"
| "uminus_npfloat NaN = NaN"

definition minus_npfloat :: "npfloat \<Rightarrow> npfloat \<Rightarrow> npfloat" where
  "minus_npfloat x y = x + (- y)"

fun abs_npfloat :: "npfloat \<Rightarrow> npfloat" where
  "abs_npfloat (Fin a) = Fin \<bar>a\<bar>"
| "abs_npfloat PInf = PInf"
| "abs_npfloat NInf = PInf"
| "abs_npfloat NaN = NaN"

fun times_npfloat :: "npfloat \<Rightarrow> npfloat \<Rightarrow> npfloat" where
  "times_npfloat (Fin a) (Fin b) = Fin (a * b)"
| "times_npfloat NaN y = NaN"
| "times_npfloat x NaN = NaN"
| "times_npfloat (Fin a) PInf = (if a = 0 then NaN else if 0 < a then PInf else NInf)"
| "times_npfloat (Fin a) NInf = (if a = 0 then NaN else if 0 < a then NInf else PInf)"
| "times_npfloat PInf (Fin b) = (if b = 0 then NaN else if 0 < b then PInf else NInf)"
| "times_npfloat NInf (Fin b) = (if b = 0 then NaN else if 0 < b then NInf else PInf)"
| "times_npfloat PInf PInf = PInf"
| "times_npfloat PInf NInf = NInf"
| "times_npfloat NInf PInf = NInf"
| "times_npfloat NInf NInf = PInf"

fun divide_npfloat :: "npfloat \<Rightarrow> npfloat \<Rightarrow> npfloat" where
  "divide_npfloat (Fin a) (Fin b) =
     (if b = 0 then (if a = 0 then NaN else if 0 < a then PInf else NInf) else Fin (a / b))"
| "divide_npfloat NaN y = NaN"
| "divide_npfloat x NaN = NaN"
| "divide_npfloat (Fin a) PInf = Fin 0"
| "divide_npfloat (Fin a) NInf = Fin 0"
| "divide_npfloat PInf (Fin b) = (if 0 \<le> b then PInf else NInf)"
| "divide_npfloat NInf (Fin b) = (if 0 \<le> b then NInf else PInf)"
| "divide_npfloat PInf PInf = NaN"
| "divide_npfloat PInf NInf = NaN"
| "divide_npfloat NInf PInf = NaN"
| "divide_npfloat NInf NInf = NaN"

definition inverse_npfloat :: "npfloat \<Rightarrow> npfloat" where
  "inverse_npfloat x = divide (Fin 1) x"

fun less_npfloat :: "npfloat \<Rightarrow> npfloat \<Rightarrow> bool" where
  "less_npfloat (Fin a) (Fin b) = (a < b)"
| "less_npfloat NaN y = False"
| "less_npfloat x NaN = False"
| "less_npfloat x NInf = False"
| "less_npfloat PInf y = False"
| "less_npfloat NInf y = True"
| "less_npfloat x PInf = True"

definition less_eq_npfloat :: "npfloat \<Rightarrow> npfloat \<Rightarrow> bool" where
  "less_eq_npfloat x y = (if x = NaN then False else (x < y \<or> x = y))"

instance ..

end

text \<open>A float64 that is neither nan nor an infinity.\<close>

fun is_finite :: "npfloat \<Rightarrow> bool" where
  "is_finite (Fin a) = True"
| "is_finite PInf = False"
| "is_finite NInf = False"
| "is_finite NaN = False"

section \<open>float64 with rounding\<close>

text \<open>
  The type \<open>float64\<close> carries the same values with the arithmetic of IEEE 754 binary64 in
  its default rounding mode: the result of an operation on finite values is the exact
  real result rounded to the nearest representable value, ties to the even significand.
  A representable value is a multiple of the quantum of its binade: 2 to the power e - 52
  for a magnitude in the binade of exponent e with -1022 \<le> e, and 2 to the power -1074
  for every smaller magnitude (the subnormal range). A magnitude that rounds to 2 to the
  power 1024 or more becomes an infinity; a magnitude below 2 to the power -1075 rounds to
  zero. The special values combine as in \<open>npfloat\<close>. The sign of zero is the one thing
  not modelled.
\<close>

definition round_half_even :: "real \<Rightarrow> int" where
  "round_half_even y =
     (let f = \<lfloor>y\<rfloor>; d = y - of_int f in
      if d < 1 / 2 then f else if 1 / 2 < d then f + 1 else if even f then f else f + 1)"

definition f64_quantum :: "real \<Rightarrow> real" where
  "f64_quantum a = 2 powi (max \<lfloor>log 2 a\<rfloor> (- 1022) - 52)"

definition round_f64 :: "real \<Rightarrow> npfloat" where
  "round_f64 r =
     (if r = 0 then Fin 0 else
      let q = f64_quantum \<bar>r\<bar>;
          z = of_int (round_half_even (\<bar>r\<bar> / q)) * q
      in if 2 ^ 1024 \<le> z then (if 0 < r then PInf else NInf) else Fin (sgn r * z))"

fun rounded :: "npfloat \<Rightarrow> npfloat" where
  "rounded (Fin r) = round_f64 r"
| "rounded PInf = PInf"
| "rounded NInf = NInf"
| "rounded NaN = NaN"

datatype float64 = F64 npfloat

instantiation float64 :: "{zero,one,plus,times,inverse}"
begin

definition zero_float64 :: float64 where "zero_float64 = F64 (Fin 0)"

definition one_float64 :: float64 where "one_float64 = F64 (Fin 1)"

fun plus_float64 :: "float64 \<Rightarrow> float64 \<Rightarrow> float64" where
  "plus_float64 (F64 x) (F64 y) = F64 (rounded (x + y))"

fun times_float64 :: "float64 \<Rightarrow> float64 \<Rightarrow> float64" where
  "times_float64 (F64 x) (F64 y) = F64 (rounded (x * y))"

fun divide_float64 :: "float64 \<Rightarrow> float64 \<Rightarrow> float64" where
  "divide_float64 (F64 x) (F64 y) = F64 (rounded (x / y))"

definition inverse_float64 :: "float64 \<Rightarrow> float64" where
  "inverse_float64 x = divide (F64 (Fin 1)) x"

instance ..

end

fun f64_finite :: "float64 \<Rightarrow> bool" where
  "f64_finite (F64 x) = is_finite x"

text \<open>The real number a finite float64 stands for (0 for nan and the infinities).\<close>

fun f64_value :: "float64 \<Rightarrow> real" where
  "f64_value (F64 (Fin r)) = r"
| "f64_value (F64 PInf) = 0"
| "f64_value (F64 NInf) = 0"
| "f64_value (F64 NaN) = 0"

text \<open>A finite float64 between 0 and 1, as the entries of a lattice of probabilities are.\<close>

definition f64_probability :: "float64 \<Rightarrow> bool" where
  "f64_probability x = (f64_finite x \<and> 0 \<le> f64_value x \<and> f64_value x \<le> 1)"

text \<open>
  A finite value that is not negative and is a multiple of 2 to the power -1074, as every
  finite float64 that is not negative is.
\<close>

definition f64_nonneg :: "float64 \<Rightarrow> bool" where
  "f64_nonneg x = (f64_finite x \<and> 0 \<le> f64_value x
      \<and> of_int \<lfloor>f64_value x * 2 ^ 1074\<rfloor> = f64_value x * 2 ^ 1074)"

text \<open>
  A raised exception is the left summand of the result; \<open>ebind\<close> runs the next
  statement only when the previous one returned.
\<close>

definition ebind :: "py_error + 'a \<Rightarrow> ('a \<Rightarrow> py_error + 'b) \<Rightarrow> py_error + 'b" where
  "ebind m f = (case m of Inl e \<Rightarrow> Inl e | Inr x \<Rightarrow> f x)"

text \<open>\<^verbatim>\<open>for i in indices: body\<close>, on a state that the body updates.\<close>

fun py_for :: "nat list \<Rightarrow> (nat \<Rightarrow> 's \<Rightarrow> py_error + 's) \<Rightarrow> 's \<Rightarrow> py_error + 's" where
  "py_for [] body s = Inr s"
| "py_for (i # rest) body s = ebind (body i s) (py_for rest body)"

text \<open>
  \<^verbatim>\<open>sum(f(j) for j in indices)\<close>: Python's \<open>sum\<close> adds from the left, starting at 0;
  the accumulator is passed in.
\<close>

fun py_sum_gen :: "nat list \<Rightarrow> (nat \<Rightarrow> py_error + 'a) \<Rightarrow> 'a::plus \<Rightarrow> py_error + 'a" where
  "py_sum_gen [] f acc = Inr acc"
| "py_sum_gen (j # rest) f acc = ebind (f j) (\<lambda>v. py_sum_gen rest f (acc + v))"

definition py_sum :: "'a::{zero,plus} list \<Rightarrow> 'a" where
  "py_sum xs = foldl (+) 0 xs"

text \<open>
  A two-dimensional array is the list of its rows. Indices are natural numbers: the
  notebook indexes with \<open>range\<close> values and observation symbols, and the one negative index
  it writes (\<^verbatim>\<open>F[:, -1]\<close>) is translated where it occurs.
\<close>

definition py_getitem :: "'a list \<Rightarrow> nat \<Rightarrow> py_error + 'a" where
  "py_getitem xs i = (if i < length xs then Inr (xs ! i) else Inl IndexError)"

definition np_zeros :: "nat \<Rightarrow> nat \<Rightarrow> 'a::zero list list" where
  "np_zeros r c = replicate r (replicate c 0)"

definition np_get2 :: "'a list list \<Rightarrow> nat \<Rightarrow> nat \<Rightarrow> py_error + 'a" where
  "np_get2 X i j =
     (if i < length X then (if j < length (X ! i) then Inr (X ! i ! j) else Inl IndexError)
      else Inl IndexError)"

definition np_set2 :: "'a list list \<Rightarrow> nat \<Rightarrow> nat \<Rightarrow> 'a \<Rightarrow> py_error + 'a list list" where
  "np_set2 X i j v =
     (if i < length X then (if j < length (X ! i) then Inr (X[i := (X ! i)[j := v]]) else Inl IndexError)
      else Inl IndexError)"

text \<open>\<^verbatim>\<open>X[:, j]\<close> and \<^verbatim>\<open>X[i, :]\<close>.\<close>

definition np_col :: "'a list list \<Rightarrow> nat \<Rightarrow> py_error + 'a list" where
  "np_col X j =
     (if list_all (\<lambda>row. j < length row) X then Inr (map (\<lambda>row. row ! j) X) else Inl IndexError)"

definition np_row :: "'a list list \<Rightarrow> nat \<Rightarrow> py_error + 'a list" where
  "np_row X i = (if i < length X then Inr (X ! i) else Inl IndexError)"

text \<open>\<^verbatim>\<open>X[:, j] = v\<close>: a vector of length 1 is broadcast over the rows.\<close>

definition np_set_col :: "'a list list \<Rightarrow> nat \<Rightarrow> 'a list \<Rightarrow> py_error + 'a list list" where
  "np_set_col X j v =
     (if list_all (\<lambda>row. j < length row) X then
        (if length v = length X then Inr (map2 (\<lambda>row x. row[j := x]) X v)
         else if length v = 1 then Inr (map (\<lambda>row. row[j := v ! 0]) X)
         else Inl ValueError)
      else Inl IndexError)"

text \<open>
  \<^verbatim>\<open>xs * ys\<close> on one-dimensional arrays: elementwise on equal lengths, a length-1
  operand is broadcast, any other pair of lengths raises ValueError.
\<close>

definition np_mul :: "'a::times list \<Rightarrow> 'a list \<Rightarrow> py_error + 'a list" where
  "np_mul xs ys =
     (if length xs = length ys then Inr (map2 (*) xs ys)
      else if length xs = 1 then Inr (map ((*) (xs ! 0)) ys)
      else if length ys = 1 then Inr (map (\<lambda>x. x * ys ! 0) xs)
      else Inl ValueError)"

section \<open>Forward algorithm\<close>

text \<open>
  \<^verbatim>\<open>calculate_forward_probabilities(pi, emission_probability, transition_probability, obs_seq)\<close>.
  The inner loop multiplies the previous column by the row \<^verbatim>\<open>transition_probability[r, :]\<close>.
  The parameter \<^verbatim>\<open>pi\<close> is written \<open>pi0\<close>, \<^verbatim>\<open>emission_probability\<close> is \<open>B\<close> and
  \<^verbatim>\<open>transition_probability\<close> is \<open>A\<close>.
\<close>

definition forward_cell ::
  "'a::{zero,plus,times} list list \<Rightarrow> nat \<Rightarrow> nat \<Rightarrow> 'a list list \<Rightarrow> py_error + 'a list list" where
  "forward_cell A c r F =
     ebind (np_col F (c - 1)) (\<lambda>prev.
     ebind (np_row A r) (\<lambda>a.
     ebind (np_mul prev a) (\<lambda>p.
     np_set2 F r c (py_sum p))))"

definition forward_column ::
  "'a::{zero,plus,times} list list \<Rightarrow> 'a list list \<Rightarrow> nat list \<Rightarrow> nat \<Rightarrow> nat \<Rightarrow> 'a list list
     \<Rightarrow> py_error + 'a list list" where
  "forward_column B A obs_seq row c F =
     ebind (py_for [0..<row] (forward_cell A c) F) (\<lambda>F1.
     ebind (np_col F1 c) (\<lambda>cur.
     ebind (py_getitem obs_seq c) (\<lambda>oc.
     ebind (np_col B oc) (\<lambda>bc.
     ebind (np_mul cur bc) (\<lambda>v.
     np_set_col F1 c v)))))"

definition calculate_forward_probabilities ::
  "'a::{zero,plus,times} list \<Rightarrow> 'a list list \<Rightarrow> 'a list list \<Rightarrow> nat list \<Rightarrow> py_error + 'a list list" where
  "calculate_forward_probabilities pi0 B A obs_seq =
     (let row = length A; col = length obs_seq; F = np_zeros row col in
      ebind (py_getitem obs_seq 0) (\<lambda>o0.
      ebind (np_col B o0) (\<lambda>b0.
      ebind (np_mul pi0 b0) (\<lambda>v.
      ebind (np_set_col F 0 v) (\<lambda>F0.
      py_for [1..<col] (forward_column B A obs_seq row) F0)))))"

section \<open>Backward algorithm\<close>

text \<open>
  \<^verbatim>\<open>calculate_backward_probabilities(emission_probability, transition_probability, obs_seq)\<close>.
  The cell builds the two-element array \<^verbatim>\<open>np.array((F[r, c + 1], F[r, c + 1]))\<close> and
  multiplies it by the row \<^verbatim>\<open>transition_probability[r, :]\<close> and by the column
  \<^verbatim>\<open>emission_probability[:, obs_seq[c]]\<close>. \<^verbatim>\<open>F[:, -1]\<close> is the last column, and an
  IndexError on an array with no column; \<^verbatim>\<open>range(col - 2, -1, -1)\<close> is
  \<open>rev [0..<col - 1]\<close>.
\<close>

definition backward_cell ::
  "'a::{zero,plus,times} list list \<Rightarrow> 'a list list \<Rightarrow> nat list \<Rightarrow> nat \<Rightarrow> nat \<Rightarrow> 'a list list
     \<Rightarrow> py_error + 'a list list" where
  "backward_cell B A obs_seq c r F =
     ebind (np_get2 F r (c + 1)) (\<lambda>x.
     ebind (np_row A r) (\<lambda>a.
     ebind (np_mul [x, x] a) (\<lambda>ta.
     ebind (py_getitem obs_seq c) (\<lambda>oc.
     ebind (np_col B oc) (\<lambda>b.
     ebind (np_mul ta b) (\<lambda>p.
     np_set2 F r c (py_sum p)))))))"

definition calculate_backward_probabilities ::
  "'a::{zero,one,plus,times} list list \<Rightarrow> 'a list list \<Rightarrow> nat list \<Rightarrow> py_error + 'a list list" where
  "calculate_backward_probabilities B A obs_seq =
     (let row = length A; col = length obs_seq; F = np_zeros row col in
      ebind (if col = 0 then Inl IndexError else np_set_col F (col - 1) (replicate row 1)) (\<lambda>F1.
      py_for (rev [0..<col - 1]) (\<lambda>c. py_for [0..<row] (backward_cell B A obs_seq c)) F1))"

section \<open>Viterbi\<close>

text \<open>
  The notebook keeps the decoded path in the module-level list \<^verbatim>\<open>viterbi_path\<close>;
  \<^verbatim>\<open>viterbi\<close> appends to it and returns only the matrix, and
  \<^verbatim>\<open>calculate_viterbi_path\<close> then replaces every index in it by its label. A call that
  raises is modelled by its exception alone, without the entries it had appended before.
\<close>

datatype path_entry = StateIndex nat | StateLabel string

record notebook_globals =
  viterbi_path :: "path_entry list"

text \<open>Python's \<open>max\<close> over the elements, which keeps the first of equal maxima.\<close>

definition py_max :: "'a::linorder list \<Rightarrow> py_error + 'a" where
  "py_max xs = (case xs of [] \<Rightarrow> Inl ValueError
                | x # rest \<Rightarrow> Inr (foldl (\<lambda>m y. if m < y then y else m) x rest))"

text \<open>
  \<^verbatim>\<open>pd.DataFrame(v).idxmax()[0]\<close>: the index of the first occurrence of the maximum.
  The arguments of \<open>idxmax_from\<close> are the remaining elements, their first index, and the
  best index and value so far.
\<close>

fun idxmax_from :: "'a::linorder list \<Rightarrow> nat \<Rightarrow> nat \<Rightarrow> 'a \<Rightarrow> nat" where
  "idxmax_from [] i bi bv = bi"
| "idxmax_from (x # xs) i bi bv =
     (if bv < x then idxmax_from xs (Suc i) i x else idxmax_from xs (Suc i) bi bv)"

definition idxmax :: "'a::linorder list \<Rightarrow> py_error + nat" where
  "idxmax xs = (case xs of [] \<Rightarrow> Inl ValueError | x # rest \<Rightarrow> Inr (idxmax_from rest 1 0 x))"

definition viterbi_cell ::
  "'a::{zero,times,linorder} list list \<Rightarrow> nat \<Rightarrow> nat \<Rightarrow> 'a list list \<Rightarrow> py_error + 'a list list" where
  "viterbi_cell A c r F =
     ebind (np_row A r) (\<lambda>a.
     ebind (np_col F (c - 1)) (\<lambda>prev.
     ebind (np_mul a prev) (\<lambda>p.
     ebind (py_max p) (\<lambda>m.
     np_set2 F r c m))))"

definition viterbi_column ::
  "'a::{zero,times,linorder} list list \<Rightarrow> 'a list list \<Rightarrow> nat list \<Rightarrow> nat \<Rightarrow> nat
     \<Rightarrow> 'a list list \<times> path_entry list \<Rightarrow> py_error + 'a list list \<times> path_entry list" where
  "viterbi_column B A obs_seq row c Fp =
     ebind (py_for [0..<row] (viterbi_cell A c) (fst Fp)) (\<lambda>F1.
     ebind (np_col F1 c) (\<lambda>cur.
     ebind (py_getitem obs_seq c) (\<lambda>oc.
     ebind (np_col B oc) (\<lambda>bc.
     ebind (np_mul cur bc) (\<lambda>v.
     ebind (np_set_col F1 c v) (\<lambda>F2.
     ebind (np_col F2 c) (\<lambda>t.
     ebind (idxmax t) (\<lambda>k.
     Inr (F2, snd Fp @ [StateIndex k])))))))))"

definition viterbi ::
  "'a::{zero,times,linorder} list \<Rightarrow> 'a list list \<Rightarrow> 'a list list \<Rightarrow> nat list \<Rightarrow> notebook_globals
     \<Rightarrow> py_error + 'a list list \<times> notebook_globals" where
  "viterbi pi0 B A obs_seq g =
     (let row = length A; col = length obs_seq; F = np_zeros row col in
      ebind (py_getitem obs_seq 0) (\<lambda>o0.
      ebind (np_col B o0) (\<lambda>b0.
      ebind (np_mul pi0 b0) (\<lambda>v.
      ebind (np_set_col F 0 v) (\<lambda>F0.
      ebind (np_col F0 0) (\<lambda>t.
      ebind (idxmax t) (\<lambda>k.
      ebind (py_for [1..<col] (viterbi_column B A obs_seq row) (F0, viterbi_path g @ [StateIndex k]))
        (\<lambda>Fp. Inr (fst Fp, g\<lparr>viterbi_path := snd Fp\<rparr>)))))))))"

text \<open>
  \<^verbatim>\<open>calculate_viterbi_path()\<close>: reads the last entry (unused afterwards) and
  overwrites each entry by \<^verbatim>\<open>states[viterbi_path[i]]\<close>; indexing \<^verbatim>\<open>states\<close> with a
  label is a TypeError.
\<close>

definition label_entry :: "string list \<Rightarrow> path_entry \<Rightarrow> py_error + path_entry" where
  "label_entry states e =
     (case e of StateIndex k \<Rightarrow> ebind (py_getitem states k) (\<lambda>s. Inr (StateLabel s))
      | StateLabel s \<Rightarrow> Inl TypeError)"

definition calculate_viterbi_path :: "string list \<Rightarrow> notebook_globals \<Rightarrow> py_error + notebook_globals" where
  "calculate_viterbi_path states g =
     (if viterbi_path g = [] then Inl IndexError
      else ebind (py_for [0..<length (viterbi_path g)]
                    (\<lambda>i p. ebind (py_getitem p i) (\<lambda>e. ebind (label_entry states e) (\<lambda>l. Inr (p[i := l]))))
                    (viterbi_path g))
             (\<lambda>p. Inr (g\<lparr>viterbi_path := p\<rparr>)))"

section \<open>Posteriors: gamma and xi\<close>

text \<open>
  \<^verbatim>\<open>calculate_gamma(alpha, beta, obs_seq, transition_probability)\<close>. Every cell divides
  by a freshly computed \<^verbatim>\<open>sum(alpha[j, t] * beta[j, t] for j in range(row))\<close>; the division
  is numpy's, on float64. The function is written once for every arithmetic, so that it
  can be run on \<open>npfloat\<close> and on \<open>float64\<close>; of the last argument only the length is read.
\<close>

definition gamma_denominator ::
  "'a::{zero,plus,times} list list \<Rightarrow> 'a list list \<Rightarrow> nat \<Rightarrow> nat \<Rightarrow> py_error + 'a" where
  "gamma_denominator alpha beta row t =
     py_sum_gen [0..<row]
       (\<lambda>j. ebind (np_get2 alpha j t) (\<lambda>aj. ebind (np_get2 beta j t) (\<lambda>bj. Inr (aj * bj)))) 0"

definition gamma_cell ::
  "'a::{zero,plus,times,inverse} list list \<Rightarrow> 'a list list \<Rightarrow> nat \<Rightarrow> nat \<Rightarrow> nat \<Rightarrow> 'a list list
     \<Rightarrow> py_error + 'a list list" where
  "gamma_cell alpha beta row t i g =
     ebind (np_get2 alpha i t) (\<lambda>a.
     ebind (np_get2 beta i t) (\<lambda>b.
     ebind (gamma_denominator alpha beta row t) (\<lambda>den.
     np_set2 g i t (a * b / den))))"

definition calculate_gamma ::
  "'a::{zero,plus,times,inverse} list list \<Rightarrow> 'a list list \<Rightarrow> nat list \<Rightarrow> 'b list list
     \<Rightarrow> py_error + 'a list list" where
  "calculate_gamma alpha beta obs_seq A =
     (let row = length A; col = length obs_seq in
      py_for [0..<col] (\<lambda>t. py_for [0..<row] (gamma_cell alpha beta row t)) (np_zeros row col))"

text \<open>
  \<^verbatim>\<open>compute_xi(alpha, beta, obs_seq, emission_probability, transition_probability)\<close>, on a
  three-dimensional array \<^verbatim>\<open>xi[i, j, t]\<close>.
\<close>

definition np_get3 :: "'a list list list \<Rightarrow> nat \<Rightarrow> nat \<Rightarrow> nat \<Rightarrow> py_error + 'a" where
  "np_get3 X i j t = ebind (py_getitem X i) (\<lambda>Xi. np_get2 Xi j t)"

definition np_set3 :: "'a list list list \<Rightarrow> nat \<Rightarrow> nat \<Rightarrow> nat \<Rightarrow> 'a \<Rightarrow> py_error + 'a list list list" where
  "np_set3 X i j t v =
     ebind (py_getitem X i) (\<lambda>Xi. ebind (np_set2 Xi j t v) (\<lambda>Xi1. Inr (X[i := Xi1])))"

definition xi_term ::
  "npfloat list list \<Rightarrow> npfloat list list \<Rightarrow> nat list \<Rightarrow> npfloat list list \<Rightarrow> npfloat list list
     \<Rightarrow> nat \<Rightarrow> nat \<Rightarrow> nat \<Rightarrow> py_error + npfloat" where
  "xi_term alpha beta obs_seq B A t i j =
     ebind (np_get2 alpha i t) (\<lambda>a.
     ebind (np_get2 A i j) (\<lambda>aij.
     ebind (py_getitem obs_seq (t + 1)) (\<lambda>oc.
     ebind (np_get2 B j oc) (\<lambda>b.
     ebind (np_get2 beta j (t + 1)) (\<lambda>be.
     Inr (a * aij * b * be))))))"

definition xi_cell ::
  "npfloat list list \<Rightarrow> npfloat list list \<Rightarrow> nat list \<Rightarrow> npfloat list list \<Rightarrow> npfloat list list
     \<Rightarrow> nat \<Rightarrow> nat \<Rightarrow> nat \<Rightarrow> nat \<Rightarrow> npfloat list list list \<Rightarrow> py_error + npfloat list list list" where
  "xi_cell alpha beta obs_seq B A row t i j xi =
     ebind (xi_term alpha beta obs_seq B A t i j) (\<lambda>numerator.
     ebind (py_sum_gen [0..<row]
              (\<lambda>i1. py_sum_gen [0..<row] (\<lambda>j1. xi_term alpha beta obs_seq B A t i1 j1) 0) 0) (\<lambda>denominator.
     np_set3 xi i j t (numerator / denominator)))"

definition compute_xi ::
  "npfloat list list \<Rightarrow> npfloat list list \<Rightarrow> nat list \<Rightarrow> npfloat list list \<Rightarrow> npfloat list list
     \<Rightarrow> py_error + npfloat list list list" where
  "compute_xi alpha beta obs_seq B A =
     (let col = length obs_seq; row = length A in
      py_for [0..<col - 1]
        (\<lambda>t. py_for [0..<row] (\<lambda>i. py_for [0..<row] (xi_cell alpha beta obs_seq B A row t i)))
        (replicate row (replicate row (replicate col 0))))"

section \<open>Baum-Welch\<close>

text \<open>
  A value that \<^verbatim>\<open>sum(... for t in ...)\<close> returns: the int 0 it starts from when the
  generator is empty, a float64 otherwise. Python's \<^verbatim>\<open>/\<close> raises ZeroDivisionError only
  when both operands are ints; with a float64 operand the division is numpy's.
\<close>

datatype pynum = PyInt int | PyNp npfloat

definition py_sum_num :: "nat list \<Rightarrow> (nat \<Rightarrow> py_error + npfloat) \<Rightarrow> py_error + pynum" where
  "py_sum_num ts f =
     (if ts = [] then Inr (PyInt 0) else ebind (py_sum_gen ts f 0) (\<lambda>v. Inr (PyNp v)))"

fun py_truediv :: "pynum \<Rightarrow> pynum \<Rightarrow> py_error + npfloat" where
  "py_truediv (PyInt a) (PyInt b) =
     (if b = 0 then Inl ZeroDivisionError else Inr (Fin (real_of_int a / real_of_int b)))"
| "py_truediv (PyInt a) (PyNp y) = Inr (Fin (real_of_int a) / y)"
| "py_truediv (PyNp x) (PyInt b) = Inr (x / Fin (real_of_int b))"
| "py_truediv (PyNp x) (PyNp y) = Inr (x / y)"

text \<open>\<^verbatim>\<open>X.shape[1]\<close>, read off the first row.\<close>

definition np_shape1 :: "'a list list \<Rightarrow> nat" where
  "np_shape1 X = (case X of [] \<Rightarrow> 0 | r # rest \<Rightarrow> length r)"

text \<open>The M step, writing into the two matrices cell by cell.\<close>

definition m_step_A_cell ::
  "npfloat list list list \<Rightarrow> npfloat list list \<Rightarrow> nat \<Rightarrow> nat \<Rightarrow> nat \<Rightarrow> npfloat list list
     \<Rightarrow> py_error + npfloat list list" where
  "m_step_A_cell xi gamma col i j A =
     ebind (py_sum_num [0..<col - 1] (\<lambda>t. np_get3 xi i j t)) (\<lambda>numerator.
     ebind (py_sum_num [0..<col - 1] (\<lambda>t. np_get2 gamma i t)) (\<lambda>denominator.
     ebind (py_truediv numerator denominator) (\<lambda>v.
     np_set2 A i j v)))"

definition m_step_B_cell ::
  "npfloat list list \<Rightarrow> nat list \<Rightarrow> nat \<Rightarrow> nat \<Rightarrow> nat \<Rightarrow> npfloat list list
     \<Rightarrow> py_error + npfloat list list" where
  "m_step_B_cell gamma obs_seq col j k B =
     ebind (py_sum_num (filter (\<lambda>t. obs_seq ! t = k) [0..<col]) (\<lambda>t. np_get2 gamma j t)) (\<lambda>numerator.
     ebind (py_sum_num [0..<col] (\<lambda>t. np_get2 gamma j t)) (\<lambda>denominator.
     ebind (py_truediv numerator denominator) (\<lambda>v.
     np_set2 B j k v)))"

text \<open>
  \<^verbatim>\<open>sum(sum(map(abs, X)))\<close> on a two-dimensional array: the inner \<open>sum\<close> adds the rows
  to the int 0, and the outer one iterates over the result, which is the int 0 itself
  (a TypeError) when the array has no row.
\<close>

definition py_sum_sum_abs :: "npfloat list list \<Rightarrow> py_error + npfloat" where
  "py_sum_sum_abs X =
     (case map (map abs) X of [] \<Rightarrow> Inl TypeError
      | r # rest \<Rightarrow> Inr (py_sum (foldl (map2 (+)) (map ((+) 0) r) rest)))"

definition np_sub2 :: "npfloat list list \<Rightarrow> npfloat list list \<Rightarrow> npfloat list list" where
  "np_sub2 X Y = map2 (map2 (-)) X Y"

text \<open>
  One pass of the loop body: E step, copies of the current parameters, M step and the
  offset \<^verbatim>\<open>delta_lambda\<close>. The result is the updated pair and the offset.
\<close>

definition baum_welch_body ::
  "npfloat list \<Rightarrow> nat list \<Rightarrow> npfloat list list \<Rightarrow> npfloat list list
     \<Rightarrow> py_error + (npfloat list list \<times> npfloat list list \<times> npfloat)" where
  "baum_welch_body pi0 obs_seq B A =
     (let M = np_shape1 B; row = length A; col = length obs_seq in
      ebind (calculate_forward_probabilities pi0 B A obs_seq) (\<lambda>alpha.
      ebind (calculate_backward_probabilities B A obs_seq) (\<lambda>beta.
      ebind (calculate_gamma alpha beta obs_seq A) (\<lambda>gamma.
      ebind (compute_xi alpha beta obs_seq B A) (\<lambda>xi.
      ebind (py_for [0..<row] (\<lambda>i. py_for [0..<row] (m_step_A_cell xi gamma col i)) A) (\<lambda>A1.
      ebind (py_for [0..<row] (\<lambda>j. py_for [0..<M] (m_step_B_cell gamma obs_seq col j)) B) (\<lambda>B1.
      ebind (py_sum_sum_abs (np_sub2 A A1)) (\<lambda>dA.
      ebind (py_sum_sum_abs (np_sub2 B B1)) (\<lambda>dB.
      Inr (A1, B1, py_sum [dA, dB, py_sum (map abs (map2 (-) pi0 pi0))]))))))))))"

text \<open>
  \<^verbatim>\<open>baum_welch(pi, emission_probability, transition_probability, obs_seq)\<close>: the loop
  \<^verbatim>\<open>while delta_lambda > x\<close> with \<^verbatim>\<open>x = 0.2\<close>, entered once unconditionally because
  \<^verbatim>\<open>delta_lambda\<close> starts at \<^verbatim>\<open>x + 1\<close>. The result \<open>None\<close> stands for a loop that never
  ends. The returned triple is \<^verbatim>\<open>(transition_probability, emission_probability, pi)\<close>.
\<close>

partial_function (option) baum_welch ::
  "npfloat list \<Rightarrow> npfloat list list \<Rightarrow> npfloat list list \<Rightarrow> nat list
     \<Rightarrow> (py_error + (npfloat list list \<times> npfloat list list \<times> npfloat list)) option" where
  "baum_welch pi0 B A obs_seq =
     (case baum_welch_body pi0 obs_seq B A of
        Inl e \<Rightarrow> Some (Inl e)
      | Inr r \<Rightarrow>
          (if Fin (2 / 10) < snd (snd r) then baum_welch pi0 (fst (snd r)) (fst r) obs_seq
           else Some (Inr (fst r, fst (snd r), pi0))))"

section \<open>What the specification asks of the forward lattice\<close>

text \<open>
  The recurrence of the specification, in its own words: the value at state \<open>i\<close> and
  time \<open>t\<close> is \<open>B[i][obs[t]]\<close> times the sum over the previous state \<open>j\<close> of
  \<open>\<alpha>[j][t-1] \<cdot> A[j][i]\<close>. This is also the formula the notebook prints above the
  function (\<open>p\<^sub>s\<^sub>,\<^sub>t\<close> from the previous state \<open>s\<close> into \<open>t\<close>).
\<close>

definition spec_forward_recurrence ::
  "real list list \<Rightarrow> real list list \<Rightarrow> nat list \<Rightarrow> real list list \<Rightarrow> nat \<Rightarrow> nat \<Rightarrow> real" where
  "spec_forward_recurrence A B obs_seq alpha i t =
     B ! i ! (obs_seq ! t) * (\<Sum>j\<leftarrow>[0..<length A]. alpha ! j ! (t - 1) * A ! j ! i)"

section \<open>What the specification asks of the backward lattice, the decoder and the likelihood\<close>

text \<open>
  The backward recurrence in the specification's words (and in the formula the notebook
  prints above the function): the sum over the next state \<open>j\<close> of
  \<open>A[i][j] \<cdot> B[j][obs[t+1]] \<cdot> \<beta>[j][t+1]\<close>.
\<close>

definition spec_backward_recurrence ::
  "real list list \<Rightarrow> real list list \<Rightarrow> nat list \<Rightarrow> real list list \<Rightarrow> nat \<Rightarrow> nat \<Rightarrow> real" where
  "spec_backward_recurrence A B obs_seq beta i t =
     (\<Sum>j\<leftarrow>[0..<length A]. A ! i ! j * B ! j ! (obs_seq ! (t + 1)) * beta ! j ! (t + 1))"

text \<open>The quantity \<open>\<Sum>i \<alpha>[i][t] \<cdot> \<beta>[i][t]\<close> of the consistency property.\<close>

definition spec_alpha_beta_sum :: "real list list \<Rightarrow> real list list \<Rightarrow> nat \<Rightarrow> real" where
  "spec_alpha_beta_sum alpha beta t = (\<Sum>i\<leftarrow>[0..<length alpha]. alpha ! i ! t * beta ! i ! t)"

text \<open>
  The decoder of the specification: \<delta>[i][t] = B[i][obs[t]] \<cdot> max over j of A[j][i] \<cdot> \<delta>[j][t-1],
  the predecessor of \<open>i\<close> is the lowest-indexed \<open>j\<close> attaining that maximum, the final
  state is the lowest-indexed maximum of the last column, and the path follows the
  predecessors back to time 0. The matrix is kept as the list of its columns, oldest first.
\<close>

definition spec_max :: "real list \<Rightarrow> real" where
  "spec_max xs = foldl max (hd xs) (tl xs)"

definition spec_argmax :: "real list \<Rightarrow> nat" where
  "spec_argmax xs = hd (filter (\<lambda>i. xs ! i = spec_max xs) [0..<length xs])"

definition spec_delta_next :: "real list list \<Rightarrow> real list list \<Rightarrow> nat \<Rightarrow> real list \<Rightarrow> real list" where
  "spec_delta_next A B ob prev =
     map (\<lambda>i. B ! i ! ob * spec_max (map (\<lambda>j. A ! j ! i * prev ! j) [0..<length prev]))
       [0..<length prev]"

fun spec_delta_columns_from ::
  "real list list \<Rightarrow> real list list \<Rightarrow> real list \<Rightarrow> nat list \<Rightarrow> real list list" where
  "spec_delta_columns_from A B prev [] = []"
| "spec_delta_columns_from A B prev (ob # rest) =
     spec_delta_next A B ob prev # spec_delta_columns_from A B (spec_delta_next A B ob prev) rest"

definition spec_delta_columns ::
  "real list \<Rightarrow> real list list \<Rightarrow> real list list \<Rightarrow> nat list \<Rightarrow> real list list" where
  "spec_delta_columns pi0 B A obs_seq =
     (case obs_seq of [] \<Rightarrow> []
      | o0 # rest \<Rightarrow>
          map (\<lambda>i. pi0 ! i * B ! i ! o0) [0..<length pi0]
            # spec_delta_columns_from A B (map (\<lambda>i. pi0 ! i * B ! i ! o0) [0..<length pi0]) rest)"

text \<open>
  \<open>spec_backtrack A ds s\<close>: \<open>ds\<close> are the columns before the time of state \<open>s\<close>, newest
  first; the result is the path up to and including \<open>s\<close>, oldest first.
\<close>

fun spec_backtrack :: "real list list \<Rightarrow> real list list \<Rightarrow> nat \<Rightarrow> nat list" where
  "spec_backtrack A [] s = [s]"
| "spec_backtrack A (d # earlier) s =
     spec_backtrack A earlier (spec_argmax (map (\<lambda>j. A ! j ! s * d ! j) [0..<length d])) @ [s]"

definition spec_decode_path ::
  "real list \<Rightarrow> real list list \<Rightarrow> real list list \<Rightarrow> nat list \<Rightarrow> nat list" where
  "spec_decode_path pi0 B A obs_seq =
     spec_backtrack A (tl (rev (spec_delta_columns pi0 B A obs_seq)))
       (spec_argmax (last (spec_delta_columns pi0 B A obs_seq)))"

section \<open>Shapes\<close>

text \<open>An array of shape \<open>(r, c)\<close>.\<close>

definition has_shape :: "nat \<Rightarrow> nat \<Rightarrow> 'a list list \<Rightarrow> bool" where
  "has_shape r c X = (length X = r \<and> list_all (\<lambda>row. length row = c) X)"

section \<open>Evaluation rules\<close>

lemmas numpy_simps =
  ebind_def py_getitem_def np_zeros_def np_get2_def np_set2_def np_col_def np_row_def
  np_set_col_def np_mul_def py_sum_def upt_rec numeral_2_eq_2 numeral_3_eq_3
  zero_npfloat_def one_npfloat_def

section \<open>Forward algorithm: the transition matrix is read transposed\<close>

text \<open>
  C1. The claim: for t \<ge> 1 the forward lattice satisfies
  \<alpha>[i][t] = B[i][obs[t]] \<cdot> \<Sum>j \<alpha>[j][t-1] \<cdot> A[j][i]. The function sums
  \<alpha>[j][t-1] \<cdot> A[i][j] instead. On the two-state model with
  A = [[1, 0], [1/2, 1/2]], uniform \<pi> and B, and two observations of symbol 0, it
  returns \<alpha>[0][1] = 1/8 where the recurrence gives 3/16 (all values are exact in
  float64).
\<close>

theorem forward_reads_transition_row:
  "calculate_forward_probabilities [1/2, 1/2] [[1/2, 1/2], [1/2, 1/2]] [[1, 0], [1/2, 1/2]] [0, 0]
     = Inr [[1/4, 1/8], [1/4, 1/8 :: real]]
   \<and> spec_forward_recurrence [[1, 0], [1/2, 1/2]] [[1/2, 1/2], [1/2, 1/2]] [0, 0]
        [[1/4, 1/8], [1/4, 1/8]] 0 1 = 3/16
   \<and> [[1/4, 1/8], [1/4, 1/8 :: real]] ! 0 ! 1 \<noteq> 3/16"
  by (simp add: calculate_forward_probabilities_def forward_column_def forward_cell_def
      spec_forward_recurrence_def numpy_simps)

section \<open>Backward algorithm: the cell reads its own row and the current symbol\<close>

text \<open>
  C2. The claim: \<beta>[i][T-1] = 1 and, for t < T-1,
  \<beta>[i][t] = \<Sum>j A[i][j] \<cdot> B[j][obs[t+1]] \<cdot> \<beta>[j][t+1]. The function computes
  \<beta>[i][t+1] \<cdot> \<Sum>j A[i][j] \<cdot> B[j][obs[t]]: it takes the value of its own state \<open>i\<close> at
  time t+1 for every \<open>j\<close>, and the symbol observed at t. With
  A = B = [[1/2, 1/2], [1/4, 3/4]] and observations [0, 1, 1] it returns
  \<beta>[0][0] = 15/64 where the recurrence, applied to the returned column 1, gives 53/128.
  The last column is 1, as claimed.
\<close>

theorem backward_uses_own_state_and_current_symbol:
  "calculate_backward_probabilities [[1/2, 1/2], [1/4, 3/4]] [[1/2, 1/2], [1/4, 3/4]] [0, 1, 1]
     = Inr [[15/64, 5/8, 1], [55/256, 11/16, 1 :: real]]
   \<and> spec_backward_recurrence [[1/2, 1/2], [1/4, 3/4]] [[1/2, 1/2], [1/4, 3/4]] [0, 1, 1]
        [[15/64, 5/8, 1], [55/256, 11/16, 1]] 0 0 = 53/128
   \<and> [[15/64, 5/8, 1], [55/256, 11/16, 1 :: real]] ! 0 ! 0 \<noteq> 53/128"
  by (simp add: calculate_backward_probabilities_def backward_cell_def
      spec_backward_recurrence_def numpy_simps)

section \<open>Forward and backward lattices do not agree on the likelihood\<close>

text \<open>
  C6. The claim: \<Sum>i \<alpha>[i][t] \<cdot> \<beta>[i][t] is the same for every t. With a symmetric
  transition matrix (so that the forward lattice is the documented one), \<pi> = [1/2, 1/2],
  A = [[1/2, 1/2], [1/2, 1/2]], B = [[1, 0], [1/2, 1/2]] and observations [0, 1], the two
  functions return lattices whose sum is 9/16 at t = 0 and 3/16 at t = 1.
\<close>

theorem alpha_beta_sum_varies_with_t:
  "calculate_forward_probabilities [1/2, 1/2] [[1, 0], [1/2, 1/2]] [[1/2, 1/2], [1/2, 1/2]] [0, 1]
     = Inr [[1/2, 0], [1/4, 3/16 :: real]]
   \<and> calculate_backward_probabilities [[1, 0], [1/2, 1/2]] [[1/2, 1/2], [1/2, 1/2]] [0, 1]
     = Inr [[3/4, 1], [3/4, 1 :: real]]
   \<and> spec_alpha_beta_sum [[1/2, 0], [1/4, 3/16]] [[3/4, 1], [3/4, 1]] 0 = 9/16
   \<and> spec_alpha_beta_sum [[1/2, 0], [1/4, 3/16]] [[3/4, 1], [3/4, 1]] 1 = 3/16"
  by (simp add: calculate_forward_probabilities_def forward_column_def forward_cell_def
      calculate_backward_probabilities_def backward_cell_def spec_alpha_beta_sum_def numpy_simps)

section \<open>Viterbi: transposed transitions and a path that is not backtracked\<close>

lemma viterbi_asymmetric_run:
  "viterbi [1/2, 1/2 :: real] [[3/4, 1/4], [1/4, 3/4]] [[1, 0], [1/2, 1/2]] [0, 1, 1] \<lparr>viterbi_path = []\<rparr>
     = Inr ([[3/8, 3/32, 3/128], [1/8, 9/64, 27/512]],
            \<lparr>viterbi_path = [StateIndex 0, StateIndex 1, StateIndex 1]\<rparr>)"
  by (simp add: viterbi_def viterbi_column_def viterbi_cell_def py_max_def idxmax_def numpy_simps)

lemma viterbi_identity_run:
  "viterbi [1/2, 1/2 :: real] [[3/4, 1/4], [1/4, 3/4]] [[1, 0], [0, 1]] [0, 1, 1] \<lparr>viterbi_path = []\<rparr>
     = Inr ([[3/8, 3/32, 3/128], [1/8, 3/32, 9/128]],
            \<lparr>viterbi_path = [StateIndex 0, StateIndex 0, StateIndex 1]\<rparr>)"
  by (simp add: viterbi_def viterbi_column_def viterbi_cell_def py_max_def idxmax_def numpy_simps)

text \<open>
  The notebook's own input: the list it prints, seven times state 1 and three times
  state 0, is the column-wise argmax; following predecessors back from the best final
  state gives state 0 throughout.
\<close>

lemma viterbi_notebook_run:
  "viterbi [1/2, 1/2 :: real] [[1/2, 1/2], [3/4, 1/4]] [[9/10, 1/10], [1/10, 9/10]]
       [0, 0, 0, 0, 0, 1, 1, 1, 1, 1] \<lparr>viterbi_path = []\<rparr>
   = Inr ([[1 / 4, 9 / 80, 81 / 1600, 729 / 32000, 6561 / 640000,
        59049 / 12800000, 531441 / 256000000, 4782969 / 5120000000,
        43046721 / 102400000000, 387420489 / 2048000000000],
       [3 / 8, 81 / 320, 2187 / 12800, 59049 / 512000, 1594323 / 20480000,
        14348907 / 819200000, 129140163 / 32768000000,
        1162261467 / 1310720000000, 10460353203 / 52428800000000,
        94143178827 / 2097152000000000]],
      \<lparr>viterbi_path =
         [StateIndex 1, StateIndex 1, StateIndex 1, StateIndex 1,
          StateIndex 1, StateIndex 1, StateIndex 1, StateIndex 0,
          StateIndex 0, StateIndex 0]\<rparr>)"
  by (simp add: viterbi_def viterbi_column_def viterbi_cell_def py_max_def idxmax_def numpy_simps)

lemma spec_path_notebook_input:
  "spec_decode_path [1/2, 1/2] [[1/2, 1/2], [3/4, 1/4]] [[9/10, 1/10], [1/10, 9/10]]
       [0, 0, 0, 0, 0, 1, 1, 1, 1, 1] = [0, 0, 0, 0, 0, 0, 0, 0, 0, 0]"
  by code_simp

text \<open>
  C3. The claim: \<delta>[i][t] = B[i][obs[t]] \<cdot> max over j of A[j][i] \<cdot> \<delta>[j][t-1], and the path
  follows stored predecessors back from the best final state. The function takes the
  maximum of A[i][j] \<cdot> \<delta>[j][t-1], stores no predecessor, and appends to the path the
  state with the largest \<delta> of each column; \<^verbatim>\<open>calculate_viterbi_path\<close> reads the last
  entry and uses it for nothing. Ties do go to the lowest index. Two inputs with
  \<pi> = [1/2, 1/2], B = [[3/4, 1/4], [1/4, 3/4]] and observations [0, 1, 1]:
  with A = [[1, 0], [1/2, 1/2]] the matrix differs (\<delta>[1][1] is 9/64, not 3/64) and the
  path is [0, 1, 1], not [0, 0, 0]; with the identity for A the matrix is the claimed
  one and the path is [0, 0, 1], which has probability zero under this A, not [1, 1, 1].
\<close>

theorem viterbi_path_is_columnwise_argmax:
  "viterbi [1/2, 1/2 :: real] [[3/4, 1/4], [1/4, 3/4]] [[1, 0], [1/2, 1/2]] [0, 1, 1] \<lparr>viterbi_path = []\<rparr>
     = Inr ([[3/8, 3/32, 3/128], [1/8, 9/64, 27/512]],
            \<lparr>viterbi_path = [StateIndex 0, StateIndex 1, StateIndex 1]\<rparr>)
   \<and> spec_delta_columns [1/2, 1/2] [[3/4, 1/4], [1/4, 3/4]] [[1, 0], [1/2, 1/2]] [0, 1, 1]
     = [[3/8, 1/8], [3/32, 3/64], [3/128, 9/512]]
   \<and> spec_decode_path [1/2, 1/2] [[3/4, 1/4], [1/4, 3/4]] [[1, 0], [1/2, 1/2]] [0, 1, 1] = [0, 0, 0]
   \<and> viterbi [1/2, 1/2 :: real] [[3/4, 1/4], [1/4, 3/4]] [[1, 0], [0, 1]] [0, 1, 1] \<lparr>viterbi_path = []\<rparr>
     = Inr ([[3/8, 3/32, 3/128], [1/8, 3/32, 9/128]],
            \<lparr>viterbi_path = [StateIndex 0, StateIndex 0, StateIndex 1]\<rparr>)
   \<and> spec_delta_columns [1/2, 1/2] [[3/4, 1/4], [1/4, 3/4]] [[1, 0], [0, 1]] [0, 1, 1]
     = [[3/8, 1/8], [3/32, 3/32], [3/128, 9/128]]
   \<and> spec_decode_path [1/2, 1/2] [[3/4, 1/4], [1/4, 3/4]] [[1, 0], [0, 1]] [0, 1, 1] = [1, 1, 1]"
proof -
  have s1: "spec_delta_columns [1/2, 1/2] [[3/4, 1/4], [1/4, 3/4]] [[1, 0], [1/2, 1/2]] [0, 1, 1]
     = [[3/8, 1/8], [3/32, 3/64], [3/128, 9/512]]"
    by code_simp
  have s2: "spec_decode_path [1/2, 1/2] [[3/4, 1/4], [1/4, 3/4]] [[1, 0], [1/2, 1/2]] [0, 1, 1] = [0, 0, 0]"
    by code_simp
  have s3: "spec_delta_columns [1/2, 1/2] [[3/4, 1/4], [1/4, 3/4]] [[1, 0], [0, 1]] [0, 1, 1]
     = [[3/8, 1/8], [3/32, 3/32], [3/128, 9/128]]"
    by code_simp
  have s4: "spec_decode_path [1/2, 1/2] [[3/4, 1/4], [1/4, 3/4]] [[1, 0], [0, 1]] [0, 1, 1] = [1, 1, 1]"
    by code_simp
  show ?thesis
    using viterbi_asymmetric_run viterbi_identity_run s1 s2 s3 s4 by blast
qed

section \<open>Baum-Welch on a three-symbol sequence\<close>

text \<open>
  One pass on \<pi> = [1/2, 1/2], A = [[5/8, 3/8], [3/8, 5/8]], B = [[5/8, 3/8], [3/4, 1/4]]
  and observations [0, 0, 1], stage by stage. Both matrices are row-stochastic and A is
  symmetric, so the forward lattice is the documented one.
\<close>

lemma example_alpha:
  "calculate_forward_probabilities [Fin (1/2), Fin (1/2)]
     [[Fin (5/8), Fin (3/8)], [Fin (3/4), Fin (1/4)]] [[Fin (5/8), Fin (3/8)], [Fin (3/8), Fin (5/8)]] [0, 0, 1]
   = Inr [[Fin (5 / 16), Fin (215 / 1024), Fin (5655 / 65536)],
      [Fin (3 / 8), Fin (135 / 512), Fin (1995 / 32768)]]"
  by (simp add: calculate_forward_probabilities_def forward_column_def forward_cell_def numpy_simps)

lemma example_beta:
  "calculate_backward_probabilities
     [[Fin (5/8), Fin (3/8)], [Fin (3/4), Fin (1/4)]] [[Fin (5/8), Fin (3/8)], [Fin (3/8), Fin (5/8)]] [0, 0, 1]
   = Inr [[Fin (1849 / 4096), Fin (43 / 64), Fin 1],
      [Fin (2025 / 4096), Fin (45 / 64), Fin 1]]"
  by (simp add: calculate_backward_probabilities_def backward_cell_def numpy_simps)

lemma example_gamma:
  "calculate_gamma [[Fin (5 / 16), Fin (215 / 1024), Fin (5655 / 65536)],
      [Fin (3 / 8), Fin (135 / 512), Fin (1995 / 32768)]]
      [[Fin (1849 / 4096), Fin (43 / 64), Fin 1],
      [Fin (2025 / 4096), Fin (45 / 64), Fin 1]] [0, 0, 1] [[Fin (5/8), Fin (3/8)], [Fin (3/8), Fin (5/8)]]
   = Inr [[Fin (1849 / 4279), Fin (1849 / 4279), Fin (377 / 643)],
      [Fin (2430 / 4279), Fin (2430 / 4279), Fin (266 / 643)]]"
  by (simp add: calculate_gamma_def gamma_cell_def gamma_denominator_def numpy_simps)

lemma example_xi:
  "compute_xi [[Fin (5 / 16), Fin (215 / 1024), Fin (5655 / 65536)],
      [Fin (3 / 8), Fin (135 / 512), Fin (1995 / 32768)]]
      [[Fin (1849 / 4096), Fin (43 / 64), Fin 1],
      [Fin (2025 / 4096), Fin (45 / 64), Fin 1]] [0, 0, 1]
      [[Fin (5/8), Fin (3/8)], [Fin (3/4), Fin (1/4)]] [[Fin (5/8), Fin (3/8)], [Fin (3/8), Fin (5/8)]]
   = Inr [[[Fin (1075 / 4279), Fin (215 / 643), Fin 0],
       [Fin (810 / 4279), Fin (86 / 643), Fin 0]],
      [[Fin (774 / 4279), Fin (162 / 643), Fin 0],
       [Fin (1620 / 4279), Fin (180 / 643), Fin 0]]]"
  by (simp add: compute_xi_def xi_cell_def xi_term_def np_get3_def np_set3_def numpy_simps)


lemma baum_welch_example_body:
  "baum_welch_body [Fin (1/2), Fin (1/2)] [0, 0, 1]
     [[Fin (5/8), Fin (3/8)], [Fin (3/4), Fin (1/4)]] [[Fin (5/8), Fin (3/8)], [Fin (3/8), Fin (5/8)]]
   = Inr ([[Fin (18735 / 27649), Fin (444412 / 1188907)], [Fin (6616 / 17361), Fin (10066 / 17361)]],
          [[Fin (2377814 / 3990997), Fin (1613183 / 3990997)],
           [Fin (1562490 / 2131597), Fin (569107 / 2131597)]],
          Fin (71899596319535673917 / 364113588231140600268))"
  apply (simp only: baum_welch_body_def Let_def example_alpha example_beta example_gamma example_xi ebind_def sum.case)
  by (simp add: ebind_def m_step_A_cell_def m_step_B_cell_def py_sum_num_def
      np_get3_def np_get2_def np_set2_def py_getitem_def np_shape1_def py_sum_sum_abs_def np_sub2_def
      py_sum_def minus_npfloat_def zero_npfloat_def upt_rec numeral_2_eq_2 numeral_3_eq_3)

lemma baum_welch_example_run:
  "baum_welch [Fin (1/2), Fin (1/2)]
     [[Fin (5/8), Fin (3/8)], [Fin (3/4), Fin (1/4)]] [[Fin (5/8), Fin (3/8)], [Fin (3/8), Fin (5/8)]] [0, 0, 1]
   = Some (Inr ([[Fin (18735 / 27649), Fin (444412 / 1188907)], [Fin (6616 / 17361), Fin (10066 / 17361)]],
          [[Fin (2377814 / 3990997), Fin (1613183 / 3990997)],
           [Fin (1562490 / 2131597), Fin (569107 / 2131597)]],
          [Fin (1/2), Fin (1/2)]))"
  by (subst baum_welch.simps, subst baum_welch_example_body, simp)

text \<open>
  C4. The claim: whenever training returns (A*, B*) from row-stochastic inputs, every row
  of A* and of B* sums to 1 within 1e-9. On the input above the loop stops after its first
  pass (the offset is about 0.197) and returns an A* whose rows sum to 1250017/1188907
  (about 1.051) and 16682/17361 (about 0.961). The rows of B* do sum to 1. The numerators
  \<Sum>t \<xi>[i][j][t] no longer add up to \<Sum>t \<gamma>[i][t] because \<beta> is not the backward lattice
  (C2).
\<close>

theorem baum_welch_transition_rows_not_stochastic:
  "baum_welch [Fin (1/2), Fin (1/2)]
     [[Fin (5/8), Fin (3/8)], [Fin (3/4), Fin (1/4)]] [[Fin (5/8), Fin (3/8)], [Fin (3/8), Fin (5/8)]] [0, 0, 1]
   = Some (Inr ([[Fin (18735 / 27649), Fin (444412 / 1188907)], [Fin (6616 / 17361), Fin (10066 / 17361)]],
          [[Fin (2377814 / 3990997), Fin (1613183 / 3990997)],
           [Fin (1562490 / 2131597), Fin (569107 / 2131597)]],
          [Fin (1/2), Fin (1/2)]))
   \<and> py_sum [Fin (18735 / 27649), Fin (444412 / 1188907)] = Fin (1250017 / 1188907)
   \<and> py_sum [Fin (6616 / 17361), Fin (10066 / 17361)] = Fin (16682 / 17361)
   \<and> (1 / 10 ^ 9 :: real) < \<bar>1250017 / 1188907 - 1\<bar>
   \<and> (1 / 10 ^ 9 :: real) < \<bar>16682 / 17361 - 1\<bar>"
  using baum_welch_example_run by (simp add: py_sum_def zero_npfloat_def)

section \<open>Baum-Welch: how a call can end\<close>

text \<open>
  The loop is \<^verbatim>\<open>while delta_lambda > x\<close> with \<^verbatim>\<open>x = 0.2\<close> fixed in the code; the function
  has no iteration cap and no NonConvergence result. Two facts about calls that end follow.
  They do not say which calls end: whether the offsets of a given input ever come down to
  0.2 depends on the float64 values that the passes produce, and no statement about that is
  made here.
\<close>

lemma baum_welch_returns_aux:
  assumes run: "baum_welch pi0 B A obs_seq = Some r"
  shows "\<forall>A1 B1 pi1. r = Inr (A1, B1, pi1) \<longrightarrow>
        pi1 = pi0 \<and> (\<exists>B0 A0 d. baum_welch_body pi0 obs_seq B0 A0 = Inr (A1, B1, d) \<and> \<not> Fin (2 / 10) < d)"
proof (rule baum_welch.raw_induct
    [where P = "\<lambda>pi0 B A obs_seq r. \<forall>A1 B1 pi1. r = Inr (A1, B1, pi1) \<longrightarrow>
        pi1 = pi0 \<and> (\<exists>B0 A0 d. baum_welch_body pi0 obs_seq B0 A0 = Inr (A1, B1, d) \<and> \<not> Fin (2 / 10) < d)",
     OF _ run])
  fix bw :: "npfloat list \<Rightarrow> npfloat list list \<Rightarrow> npfloat list list \<Rightarrow> nat list
     \<Rightarrow> (py_error + (npfloat list list \<times> npfloat list list \<times> npfloat list)) option"
  fix pi0 B A obs_seq r
  assume IH: "\<And>pi0 B A obs_seq y. bw pi0 B A obs_seq = Some y \<Longrightarrow>
     \<forall>A1 B1 pi1. y = Inr (A1, B1, pi1) \<longrightarrow>
        pi1 = pi0 \<and> (\<exists>B0 A0 d. baum_welch_body pi0 obs_seq B0 A0 = Inr (A1, B1, d) \<and> \<not> Fin (2 / 10) < d)"
  assume body: "(case baum_welch_body pi0 obs_seq B A of Inl e \<Rightarrow> Some (Inl e)
      | Inr r \<Rightarrow> if Fin (2 / 10) < snd (snd r) then bw pi0 (fst (snd r)) (fst r) obs_seq
          else Some (Inr (fst r, fst (snd r), pi0))) = Some r"
  show "\<forall>A1 B1 pi1. r = Inr (A1, B1, pi1) \<longrightarrow>
        pi1 = pi0 \<and> (\<exists>B0 A0 d. baum_welch_body pi0 obs_seq B0 A0 = Inr (A1, B1, d) \<and> \<not> Fin (2 / 10) < d)"
  proof (cases "baum_welch_body pi0 obs_seq B A")
    case (Inl e)
    with body show ?thesis by auto
  next
    case (Inr res)
    show ?thesis
    proof (cases "Fin (2 / 10) < snd (snd res)")
      case True
      with body Inr have "bw pi0 (fst (snd res)) (fst res) obs_seq = Some r" by simp
      from IH[OF this] show ?thesis .
    next
      case False
      with body Inr have r: "r = Inr (fst res, fst (snd res), pi0)" by simp
      have "baum_welch_body pi0 obs_seq B A = Inr (fst res, fst (snd res), snd (snd res))"
        using Inr by simp
      with False r show ?thesis by blast
    qed
  qed
qed

text \<open>
  Whenever a call returns parameters, they were produced by a pass whose offset was not
  greater than 0.2 (a nan offset ends the loop as well), and \<pi> is returned as it was given.
\<close>

lemma baum_welch_returns_only_below_threshold:
  assumes "baum_welch pi0 B A obs_seq = Some (Inr (A1, B1, pi1))"
  shows "pi1 = pi0 \<and>
    (\<exists>B0 A0 d. baum_welch_body pi0 obs_seq B0 A0 = Inr (A1, B1, d) \<and> \<not> Fin (2 / 10) < d)"
  using baum_welch_returns_aux [OF assms] by blast

text \<open>
  On a sequence of a single observation the first pass ends the call with a
  ZeroDivisionError: the sums over \<^verbatim>\<open>range(col - 1)\<close> in the M step are both the int 0.
\<close>

lemma baum_welch_single_observation_raises:
  "baum_welch [Fin (1/2), Fin (1/2)]
     [[Fin (5/8), Fin (3/8)], [Fin (3/4), Fin (1/4)]] [[Fin (5/8), Fin (3/8)], [Fin (3/8), Fin (5/8)]] [0]
   = Some (Inl ZeroDivisionError)"
proof -
  have "baum_welch_body [Fin (1/2), Fin (1/2)] [0]
     [[Fin (5/8), Fin (3/8)], [Fin (3/4), Fin (1/4)]] [[Fin (5/8), Fin (3/8)], [Fin (3/8), Fin (5/8)]]
    = Inl ZeroDivisionError"
    by (simp add: baum_welch_body_def calculate_forward_probabilities_def
        calculate_backward_probabilities_def calculate_gamma_def gamma_cell_def gamma_denominator_def
        compute_xi_def m_step_A_cell_def py_sum_num_def numpy_simps)
  then show ?thesis by (subst baum_welch.simps) simp
qed


section \<open>Loops, shapes and the error monad\<close>

lemma ebind_Inr [simp]: "ebind (Inr x) f = f x"
  by (simp add: ebind_def)

lemma ebind_Inl [simp]: "ebind (Inl e) f = Inl e"
  by (simp add: ebind_def)

lemma has_shape_length: "has_shape r c X \<Longrightarrow> length X = r"
  by (simp add: has_shape_def)

lemma has_shape_row: "has_shape r c X \<Longrightarrow> i < r \<Longrightarrow> length (X ! i) = c"
  by (simp add: has_shape_def list_all_length)

lemma has_shape_zeros: "has_shape r c (np_zeros r c)"
  by (simp add: has_shape_def np_zeros_def list_all_length)

lemma np_get2_shape: "has_shape r c X \<Longrightarrow> i < r \<Longrightarrow> j < c \<Longrightarrow> np_get2 X i j = Inr (X ! i ! j)"
  by (simp add: np_get2_def has_shape_def list_all_length)

lemma np_set2_shape:
  "has_shape r c X \<Longrightarrow> i < r \<Longrightarrow> j < c \<Longrightarrow> np_set2 X i j v = Inr (X[i := (X ! i)[j := v]])"
  by (simp add: np_set2_def has_shape_def list_all_length)

lemma has_shape_update:
  "has_shape r c X \<Longrightarrow> has_shape r c (X[i := (X ! i)[j := v]])"
  by (cases "i < length X") (auto simp add: has_shape_def list_all_length nth_list_update)

lemma np_col_shape: "has_shape r c X \<Longrightarrow> j < c \<Longrightarrow> np_col X j = Inr (map (\<lambda>row. row ! j) X)"
  by (simp add: np_col_def has_shape_def list_all_length)

lemma np_row_shape: "has_shape r c X \<Longrightarrow> i < r \<Longrightarrow> np_row X i = Inr (X ! i)"
  by (simp add: np_row_def has_shape_def)

lemma np_set_col_shape:
  "has_shape r c X \<Longrightarrow> j < c \<Longrightarrow> length v = r \<Longrightarrow>
     np_set_col X j v = Inr (map2 (\<lambda>row x. row[j := x]) X v)"
  by (simp add: np_set_col_def has_shape_def list_all_length)

lemma has_shape_set_col:
  "has_shape r c X \<Longrightarrow> length v = r \<Longrightarrow> has_shape r c (map2 (\<lambda>row x. row[j := x]) X v)"
  by (simp add: has_shape_def list_all_length)

lemma py_for_append: "py_for (xs @ ys) body s = ebind (py_for xs body s) (py_for ys body)"
  by (induction xs arbitrary: s) (auto simp add: ebind_def split: sum.splits)

lemma py_for_invariant:
  assumes step: "\<And>i s. i \<in> set ixs \<Longrightarrow> Inv s \<Longrightarrow> \<exists>s'. body i s = Inr s' \<and> Inv s'"
    and init: "Inv s"
  shows "\<exists>s'. py_for ixs body s = Inr s' \<and> Inv s'"
  using assms
proof (induction ixs arbitrary: s)
  case Nil
  then show ?case by simp
next
  case (Cons i ixs)
  from Cons.prems(1)[of i s] Cons.prems(2) obtain s1 where s1: "body i s = Inr s1" "Inv s1"
    by auto
  have "\<exists>s'. py_for ixs body s1 = Inr s' \<and> Inv s'"
    by (rule Cons.IH) (use Cons.prems(1) s1 in auto)
  with s1 show ?case by simp
qed

section \<open>Backward algorithm: for which numbers of states it returns\<close>

lemma backward_start:
  assumes "0 < col"
  shows "\<exists>F1. np_set_col (np_zeros row col) (col - 1) (replicate row 1) = Inr F1 \<and> has_shape row col F1"
proof -
  have "np_set_col (np_zeros row col) (col - 1) (replicate row 1)
      = Inr (map2 (\<lambda>row x. row[col - 1 := x]) (np_zeros row col) (replicate row 1))"
    by (rule np_set_col_shape[OF has_shape_zeros]) (use assms in auto)
  moreover have "has_shape row col
      (map2 (\<lambda>row x. row[col - 1 := x]) (np_zeros row col) (replicate row (1::'a)))"
    by (rule has_shape_set_col[OF has_shape_zeros]) simp
  ultimately show ?thesis by blast
qed

lemma backward_cell_broadcast_error:
  assumes F: "has_shape row col F" and r: "0 < row" and c: "c + 1 < col"
    and A: "length A = row" "2 < length (A ! 0)"
  shows "backward_cell B A obs_seq c 0 F = Inl ValueError"
  using assms
  by (simp add: backward_cell_def np_get2_shape[OF F] np_row_def np_mul_def)

lemma backward_fails_above_two_states:
  fixes A :: "'a::{zero,one,plus,times} list list"
  assumes A: "2 < length A" "length (A ! 0) = length A" and T: "2 \<le> length obs_seq"
  shows "calculate_backward_probabilities B A obs_seq = Inl ValueError"
proof -
  let ?row = "length A" and ?col = "length obs_seq"
  from T have col: "0 < ?col" by linarith
  from backward_start[OF col, of ?row] obtain F1 :: "'a list list" where
    F1: "np_set_col (np_zeros ?row ?col) (?col - 1) (replicate ?row 1) = Inr F1" "has_shape ?row ?col F1"
    by blast
  from T obtain k where k: "?col - 1 = Suc k"
    by (metis Suc_diff_Suc Suc_1 Suc_le_lessD diff_zero less_imp_Suc_add add_diff_cancel_left' plus_1_eq_Suc)
  then have k2: "?col - 2 = k" by simp
  have rv: "rev [0..<?col - 1] = (?col - 2) # rev [0..<?col - 2]"
    unfolding k k2 by simp
  from A have "0 < ?row" by linarith
  then have rows: "[0..<?row] = 0 # [1..<?row]"
    using upt_rec[of 0 ?row] by simp
  have cell: "backward_cell B A obs_seq (?col - 2) 0 F1 = Inl ValueError"
    by (rule backward_cell_broadcast_error[OF F1(2)]) (use A T in auto)
  have loop: "py_for (rev [0..<?col - 1]) (\<lambda>c. py_for [0..<?row] (backward_cell B A obs_seq c)) F1
      = Inl ValueError"
    unfolding rv rows by (simp add: cell)
  show ?thesis
    using col F1(1) loop
    by (simp add: calculate_backward_probabilities_def Let_def)
qed


lemma backward_cell_returns:
  fixes A B F :: "'a::{zero,one,plus,times} list list"
  assumes F: "has_shape N T F" and A: "has_shape N N A" and B: "has_shape N M B"
    and obs: "list_all (\<lambda>ob. ob < M) obs_seq" "length obs_seq = T"
    and N: "N = 1 \<or> N = 2" and r: "r < N" and c: "c + 1 < T"
  shows "\<exists>F'. backward_cell B A obs_seq c r F = Inr F' \<and> has_shape N T F'"
proof -
  from c obs have oc: "obs_seq ! c < M" "c < length obs_seq"
    by (auto simp add: list_all_length)
  have lenA: "length (A ! r) = N" using has_shape_row[OF A r] .
  have lenB: "length (map (\<lambda>row. row ! (obs_seq ! c)) B) = N"
    using has_shape_length[OF B] by simp
  from N lenA obtain ta where ta: "np_mul [F ! r ! (c + 1), F ! r ! (c + 1)] (A ! r) = Inr ta" "length ta = 2"
    by (auto simp add: np_mul_def)
  from N lenB ta(2) obtain p where p: "np_mul ta (map (\<lambda>row. row ! (obs_seq ! c)) B) = Inr p"
    by (auto simp add: np_mul_def)
  have "backward_cell B A obs_seq c r F = Inr (F[r := (F ! r)[c := py_sum p]])"
    using c r oc ta(1) p
    by (simp add: backward_cell_def np_get2_shape[OF F] np_row_shape[OF A] np_col_shape[OF B]
        np_set2_shape[OF F] py_getitem_def)
  with has_shape_update[OF F] show ?thesis by blast
qed

lemma backward_returns_up_to_two_states:
  fixes A B :: "'a::{zero,one,plus,times} list list"
  assumes A: "has_shape N N A" and B: "has_shape N M B"
    and obs: "list_all (\<lambda>ob. ob < M) obs_seq" and T: "0 < length obs_seq"
    and N: "N = 1 \<or> N = 2"
  shows "\<exists>F. calculate_backward_probabilities B A obs_seq = Inr F \<and> has_shape N (length obs_seq) F"
proof -
  let ?T = "length obs_seq"
  have row: "length A = N" using has_shape_length[OF A] .
  from backward_start[OF T, of N] obtain F1 :: "'a list list" where
    F1: "np_set_col (np_zeros N ?T) (?T - 1) (replicate N 1) = Inr F1" "has_shape N ?T F1"
    by blast
  have inner: "\<exists>F'. py_for [0..<N] (backward_cell B A obs_seq c) F = Inr F' \<and> has_shape N ?T F'"
    if "c + 1 < ?T" "has_shape N ?T F" for c and F :: "'a list list"
  proof (rule py_for_invariant[where Inv = "has_shape N ?T"])
    fix i and s :: "'a list list"
    assume "i \<in> set [0..<N]" "has_shape N ?T s"
    then show "\<exists>s'. backward_cell B A obs_seq c i s = Inr s' \<and> has_shape N ?T s'"
      using backward_cell_returns[OF _ A B obs refl N _ that(1)] by simp
  qed (rule that(2))
  have "\<exists>F. py_for (rev [0..<?T - 1]) (\<lambda>c. py_for [0..<N] (backward_cell B A obs_seq c)) F1 = Inr F
      \<and> has_shape N ?T F"
  proof (rule py_for_invariant[where Inv = "has_shape N ?T"])
    fix c and s :: "'a list list"
    assume "c \<in> set (rev [0..<?T - 1])" "has_shape N ?T s"
    then show "\<exists>s'. py_for [0..<N] (backward_cell B A obs_seq c) s = Inr s' \<and> has_shape N ?T s'"
      using inner[of c s] by auto
  qed (rule F1(2))
  then show ?thesis
    using T F1(1) by (simp add: calculate_backward_probabilities_def Let_def row)
qed

text \<open>
  C10, as amended. With at least two observations and a well-shaped model of N \<ge> 1
  states, the call raises ValueError when N > 2 (the two-element array cannot be
  multiplied by a row of length N), whatever B and the observations are, and returns an
  N\<times>T lattice when N is 1 or 2.
\<close>

theorem backward_fails_exactly_above_two_states:
  fixes A B :: "'a::{zero,one,plus,times} list list"
  assumes A: "has_shape N N A" and B: "has_shape N M B"
    and obs: "list_all (\<lambda>ob. ob < M) obs_seq" and T: "2 \<le> length obs_seq" and N: "1 \<le> N"
  shows "if 2 < N then calculate_backward_probabilities B A obs_seq = Inl ValueError
         else (\<exists>F. calculate_backward_probabilities B A obs_seq = Inr F
                 \<and> has_shape N (length obs_seq) F)"
proof (cases "2 < N")
  case True
  have "calculate_backward_probabilities B A obs_seq = Inl ValueError"
    by (rule backward_fails_above_two_states)
      (use True T has_shape_length[OF A] has_shape_row[OF A, of 0] in auto)
  with True show ?thesis by simp
next
  case False
  with N have "N = 1 \<or> N = 2" by linarith
  moreover from T have "0 < length obs_seq" by linarith
  ultimately have "\<exists>F. calculate_backward_probabilities B A obs_seq = Inr F
                 \<and> has_shape N (length obs_seq) F"
    using backward_returns_up_to_two_states[OF A B obs] by blast
  with False show ?thesis by simp
qed

theorem backward_fails_exactly_above_two_states_witness:
  "has_shape 3 3 [[1, 0, 0], [0, 1, 0], [0, 0, 1 :: real]]
   \<and> has_shape 3 2 [[1/2, 1/2], [1/2, 1/2], [1/2, 1/2 :: real]]
   \<and> list_all (\<lambda>ob. ob < 2) [0, 1 :: nat] \<and> 2 \<le> length [0, 1 :: nat] \<and> (1 :: nat) \<le> 3
   \<and> calculate_backward_probabilities [[1/2, 1/2], [1/2, 1/2], [1/2, 1/2 :: real]]
        [[1, 0, 0], [0, 1, 0], [0, 0, 1]] [0, 1] = Inl ValueError"
proof -
  have a: "has_shape 3 3 [[1, 0, 0], [0, 1, 0], [0, 0, 1 :: real]]"
    by (simp add: has_shape_def)
  have b: "has_shape 3 2 [[1/2, 1/2], [1/2, 1/2], [1/2, 1/2 :: real]]"
    by (simp add: has_shape_def)
  have c: "list_all (\<lambda>ob. ob < 2) [0, 1 :: nat]" by simp
  have d: "2 \<le> length [0, 1 :: nat]" by simp
  have e: "(1 :: nat) \<le> 3" by simp
  from backward_fails_exactly_above_two_states[OF a b c d e] a b c d e show ?thesis by simp
qed

text \<open>
  C10, the claim as stated: the function is total only for exactly two states. A model
  with one state also returns: numpy broadcasts the row and the column of length 1
  against the two-element array, so each step is twice the product.
\<close>

theorem backward_one_state_returns:
  "calculate_backward_probabilities [[1/2, 1/2]] [[1]] [0, 1, 1] = Inr [[1, 1, 1 :: real]]"
  by (simp add: calculate_backward_probabilities_def backward_cell_def numpy_simps)


section \<open>Viterbi and the module-level path\<close>

lemma viterbi_column_path:
  assumes "viterbi_column B A obs_seq row c (F, p) = Inr (F', p')"
  shows "\<exists>k. p' = p @ [StateIndex k]
     \<and> (\<forall>q. viterbi_column B A obs_seq row c (F, q) = Inr (F', q @ [StateIndex k]))"
  using assms
  by (auto simp add: viterbi_column_def ebind_def split: sum.splits)

lemma viterbi_loop_path:
  assumes "py_for cs (viterbi_column B A obs_seq row) (F, p) = Inr (F', p')"
  shows "\<exists>ks. length ks = length cs \<and> p' = p @ ks
     \<and> (\<forall>q. py_for cs (viterbi_column B A obs_seq row) (F, q) = Inr (F', q @ ks))"
  using assms
proof (induction cs arbitrary: F p)
  case Nil
  then show ?case by simp
next
  case (Cons c cs)
  from Cons.prems obtain F1 p1 where
    step: "viterbi_column B A obs_seq row c (F, p) = Inr (F1, p1)"
    and rest: "py_for cs (viterbi_column B A obs_seq row) (F1, p1) = Inr (F', p')"
    by (cases "viterbi_column B A obs_seq row c (F, p)") auto
  from viterbi_column_path[OF step] obtain k where
    k: "p1 = p @ [StateIndex k]"
       "\<And>q. viterbi_column B A obs_seq row c (F, q) = Inr (F1, q @ [StateIndex k])"
    by blast
  from Cons.IH[OF rest] obtain ks where
    ks: "length ks = length cs" "p' = p1 @ ks"
        "\<And>q. py_for cs (viterbi_column B A obs_seq row) (F1, q) = Inr (F', q @ ks)"
    by blast
  have "length (StateIndex k # ks) = length (c # cs)" using ks(1) by simp
  moreover have "p' = p @ StateIndex k # ks" using k(1) ks(2) by simp
  moreover have "py_for (c # cs) (viterbi_column B A obs_seq row) (F, q)
      = Inr (F', q @ StateIndex k # ks)" for q
    using k(2)[of q] ks(3)[of "q @ [StateIndex k]"] by simp
  ultimately show ?case by blast
qed

text \<open>
  C9, as amended. The forward and backward functions read nothing but their arguments.
  \<^verbatim>\<open>viterbi\<close> returns a matrix that depends only on its arguments, and appends one entry
  per observation to the module-level list: whatever the list holds before the call, it
  holds the same entries followed by the same T new ones afterwards.
\<close>

theorem viterbi_appends_to_global_path:
  assumes "viterbi pi0 B A obs_seq g = Inr (F, g1)"
  shows "\<exists>ks. length ks = length obs_seq \<and> viterbi_path g1 = viterbi_path g @ ks
     \<and> (\<forall>h. viterbi pi0 B A obs_seq h = Inr (F, h\<lparr>viterbi_path := viterbi_path h @ ks\<rparr>))"
proof -
  let ?row = "length A" and ?col = "length obs_seq"
  from assms obtain o0 b0 v F0 t k Fp where
    pre: "py_getitem obs_seq 0 = Inr o0" "np_col B o0 = Inr b0" "np_mul pi0 b0 = Inr v"
      "np_set_col (np_zeros ?row ?col) 0 v = Inr F0" "np_col F0 0 = Inr t" "idxmax t = Inr k"
    and loop: "py_for [1..<?col] (viterbi_column B A obs_seq ?row) (F0, viterbi_path g @ [StateIndex k]) = Inr Fp"
    and res: "F = fst Fp" "g1 = g\<lparr>viterbi_path := snd Fp\<rparr>"
    by (auto simp add: viterbi_def Let_def ebind_def split: sum.splits)
  from pre(1) have col: "0 < ?col" by (auto simp add: py_getitem_def split: if_splits)
  from loop have loop': "py_for [1..<?col] (viterbi_column B A obs_seq ?row)
      (F0, viterbi_path g @ [StateIndex k]) = Inr (fst Fp, snd Fp)" by simp
  from viterbi_loop_path[OF loop'] obtain ks where
    ks: "length ks = length [1..<?col]" "snd Fp = (viterbi_path g @ [StateIndex k]) @ ks"
        "\<And>q. py_for [1..<?col] (viterbi_column B A obs_seq ?row) (F0, q) = Inr (fst Fp, q @ ks)"
    by blast
  have "length (StateIndex k # ks) = ?col" using ks(1) col by simp
  moreover have "viterbi_path g1 = viterbi_path g @ StateIndex k # ks"
    using res(2) ks(2) by simp
  moreover have "viterbi pi0 B A obs_seq h = Inr (F, h\<lparr>viterbi_path := viterbi_path h @ StateIndex k # ks\<rparr>)" for h
    using pre ks(3)[of "viterbi_path h @ [StateIndex k]"] res(1)
    by (simp add: viterbi_def Let_def)
  ultimately show ?thesis by blast
qed

theorem viterbi_appends_to_global_path_witness:
  "viterbi [1/2, 1/2 :: real] [[3/4, 1/4], [1/4, 3/4]] [[1, 0], [0, 1]] [0, 1, 1] \<lparr>viterbi_path = []\<rparr>
     = Inr ([[3/8, 3/32, 3/128], [1/8, 3/32, 9/128]],
            \<lparr>viterbi_path = [StateIndex 0, StateIndex 0, StateIndex 1]\<rparr>)
   \<and> (\<exists>ks. length ks = length [0, 1, 1 :: nat]
        \<and> viterbi_path \<lparr>viterbi_path = [StateIndex 0, StateIndex 0, StateIndex 1]\<rparr>
            = viterbi_path \<lparr>viterbi_path = []\<rparr> @ ks
        \<and> (\<forall>h. viterbi [1/2, 1/2 :: real] [[3/4, 1/4], [1/4, 3/4]] [[1, 0], [0, 1]] [0, 1, 1] h
              = Inr ([[3/8, 3/32, 3/128], [1/8, 3/32, 9/128]], h\<lparr>viterbi_path := viterbi_path h @ ks\<rparr>)))"
  using viterbi_appends_to_global_path [OF viterbi_identity_run] viterbi_identity_run
  by blast

text \<open>
  Decoding twice in the notebook's order (\<^verbatim>\<open>viterbi\<close>, \<^verbatim>\<open>calculate_viterbi_path\<close>, and
  both again): the second relabelling meets the labels of the first and raises.
\<close>

lemma decode_twice_raises:
  "viterbi [1/2, 1/2 :: real] [[3/4, 1/4], [1/4, 3/4]] [[1, 0], [0, 1]] [0, 1, 1] \<lparr>viterbi_path = []\<rparr>
     = Inr ([[3/8, 3/32, 3/128], [1/8, 3/32, 9/128]],
            \<lparr>viterbi_path = [StateIndex 0, StateIndex 0, StateIndex 1]\<rparr>)
   \<and> calculate_viterbi_path [''Fair'', ''Biased'']
        \<lparr>viterbi_path = [StateIndex 0, StateIndex 0, StateIndex 1]\<rparr>
     = Inr \<lparr>viterbi_path = [StateLabel ''Fair'', StateLabel ''Fair'', StateLabel ''Biased'']\<rparr>
   \<and> viterbi [1/2, 1/2 :: real] [[3/4, 1/4], [1/4, 3/4]] [[1, 0], [0, 1]] [0, 1, 1]
        \<lparr>viterbi_path = [StateLabel ''Fair'', StateLabel ''Fair'', StateLabel ''Biased'']\<rparr>
     = Inr ([[3/8, 3/32, 3/128], [1/8, 3/32, 9/128]],
            \<lparr>viterbi_path = [StateLabel ''Fair'', StateLabel ''Fair'', StateLabel ''Biased'',
                              StateIndex 0, StateIndex 0, StateIndex 1]\<rparr>)
   \<and> calculate_viterbi_path [''Fair'', ''Biased'']
        \<lparr>viterbi_path = [StateLabel ''Fair'', StateLabel ''Fair'', StateLabel ''Biased'',
                          StateIndex 0, StateIndex 0, StateIndex 1]\<rparr>
     = Inl TypeError"
  by (simp add: viterbi_def viterbi_column_def viterbi_cell_def py_max_def idxmax_def
      calculate_viterbi_path_def label_entry_def numpy_simps)

text \<open>
  C9, the claim as stated: a second call with identical inputs yields the path of the
  first. After the second call the list holds six entries, the three of the first call
  twice.
\<close>

theorem viterbi_second_call_grows_path:
  "viterbi [1/2, 1/2 :: real] [[3/4, 1/4], [1/4, 3/4]] [[1, 0], [0, 1]] [0, 1, 1] \<lparr>viterbi_path = []\<rparr>
     = Inr ([[3/8, 3/32, 3/128], [1/8, 3/32, 9/128]],
            \<lparr>viterbi_path = [StateIndex 0, StateIndex 0, StateIndex 1]\<rparr>)
   \<and> viterbi [1/2, 1/2 :: real] [[3/4, 1/4], [1/4, 3/4]] [[1, 0], [0, 1]] [0, 1, 1]
       \<lparr>viterbi_path = [StateIndex 0, StateIndex 0, StateIndex 1]\<rparr>
     = Inr ([[3/8, 3/32, 3/128], [1/8, 3/32, 9/128]],
            \<lparr>viterbi_path = [StateIndex 0, StateIndex 0, StateIndex 1,
                              StateIndex 0, StateIndex 0, StateIndex 1]\<rparr>)
   \<and> [StateIndex 0, StateIndex 0, StateIndex 1]
       \<noteq> [StateIndex 0, StateIndex 0, StateIndex 1, StateIndex 0, StateIndex 0, StateIndex 1]"
  by (simp add: viterbi_def viterbi_column_def viterbi_cell_def py_max_def idxmax_def numpy_simps)

section \<open>Rounding to float64\<close>

text \<open>
  What the proofs about \<open>float64\<close> need of the rounding: the rounded value of a real that
  is not negative and at most 2 to the power 1000 is finite, not negative, a multiple of
  2 to the power -1074, and within half a quantum of the real; a sum of two such multiples
  is rounded with relative error at most 2 to the power -53, also in the subnormal range,
  where it is exact.
\<close>

lemma round_half_even_close: "\<bar>of_int (round_half_even y) - y\<bar> \<le> 1 / 2"
  unfolding round_half_even_def Let_def by (auto; linarith)

lemma round_half_even_nonneg: "0 \<le> y \<Longrightarrow> 0 \<le> round_half_even y"
  unfolding round_half_even_def Let_def by (auto; linarith)

lemma round_half_even_of_int: "round_half_even (of_int n) = n"
  unfolding round_half_even_def Let_def by simp

lemma exponent_bounds:
  fixes a :: real
  assumes "0 < a"
  shows "2 powi \<lfloor>log 2 a\<rfloor> \<le> a" "a < 2 powi (\<lfloor>log 2 a\<rfloor> + 1)"
proof -
  have "\<lfloor>log 2 a\<rfloor> = \<lfloor>log 2 a\<rfloor>" ..
  then have "2 powr (of_int \<lfloor>log 2 a\<rfloor>) \<le> a \<and> a < 2 powr (of_int \<lfloor>log 2 a\<rfloor> + 1)"
    using floor_log_eq_powr_iff[of a 2 "\<lfloor>log 2 a\<rfloor>"] assms by simp
  moreover have "(2::real) powr (of_int \<lfloor>log 2 a\<rfloor> + 1) = 2 powi (\<lfloor>log 2 a\<rfloor> + 1)"
    using powr_real_of_int'[of 2 "\<lfloor>log 2 a\<rfloor> + 1"] by simp
  moreover have "(2::real) powr (of_int \<lfloor>log 2 a\<rfloor>) = 2 powi \<lfloor>log 2 a\<rfloor>"
    using powr_real_of_int'[of 2 "\<lfloor>log 2 a\<rfloor>"] by simp
  ultimately show "2 powi \<lfloor>log 2 a\<rfloor> \<le> a" "a < 2 powi (\<lfloor>log 2 a\<rfloor> + 1)"
    by simp_all
qed

lemma quantum_pos: "0 < f64_quantum a"
  by (simp add: f64_quantum_def)

lemma quantum_normal:
  assumes a: "2 powi (- 1022) \<le> a"
  shows "f64_quantum a \<le> a / 2 ^ 52"
proof -
  define E where "E = \<lfloor>log 2 a\<rfloor>"
  have "(0::real) < 2 powi (- 1022)" by (rule zero_less_power_int) simp
  with a have pos: "0 < a" by linarith
  have lo: "2 powi E \<le> a" and hi: "a < 2 powi (E + 1)"
    using exponent_bounds[OF pos] by (simp_all add: E_def)
  have q: "f64_quantum a = 2 powi (max E (- 1022) - 52)"
    by (simp only: f64_quantum_def E_def)
  have "- 1022 \<le> E"
  proof (rule ccontr)
    assume "\<not> - 1022 \<le> E"
    then have "E + 1 \<le> - 1022" by linarith
    then have "(2::real) powi (E + 1) \<le> 2 powi (- 1022)"
      by (intro power_int_increasing) simp_all
    with hi a show False by linarith
  qed
  then have "max E (- 1022) = E" by (rule max.absorb1)
  then have "f64_quantum a = 2 powi (E - 52)" using q by simp
  also have "\<dots> = 2 powi E / 2 ^ 52" by (simp add: power_int_diff)
  also have "\<dots> \<le> a / 2 ^ 52" using lo by (simp add: divide_right_mono)
  finally show ?thesis .
qed

lemma quantum_subnormal:
  assumes pos: "0 < a" and a: "a < 2 powi (- 1022)"
  shows "f64_quantum a = 2 powi (- 1074)"
proof -
  define E where "E = \<lfloor>log 2 a\<rfloor>"
  have lo: "2 powi E \<le> a" and hi: "a < 2 powi (E + 1)"
    using exponent_bounds[OF pos] by (simp_all add: E_def)
  have q: "f64_quantum a = 2 powi (max E (- 1022) - 52)"
    by (simp only: f64_quantum_def E_def)
  have "E \<le> - 1022"
  proof (rule ccontr)
    assume "\<not> E \<le> - 1022"
    then have "- 1022 \<le> E" by linarith
    then have "(2::real) powi (- 1022) \<le> 2 powi E"
      by (intro power_int_increasing) simp_all
    with lo a show False by linarith
  qed
  then have "max E (- 1022) = - 1022" by (rule max.absorb2)
  then show ?thesis using q by simp
qed

lemma quantum_le:
  assumes pos: "0 < a"
  shows "f64_quantum a \<le> a / 2 ^ 52 + 2 powi (- 1074)"
proof (cases "2 powi (- 1022) \<le> a")
  case True
  have "(0::real) \<le> 2 powi (- 1074)" by (rule zero_le_power_int) simp
  with quantum_normal[OF True] show ?thesis by linarith
next
  case False
  then have "f64_quantum a = 2 powi (- 1074)" using quantum_subnormal[OF pos] by simp
  moreover have "0 \<le> a / 2 ^ 52" using pos by simp
  ultimately show ?thesis by linarith
qed

lemma quantum_grid: "f64_quantum a * 2 ^ 1074 \<in> \<int>"
proof -
  define k where "k = max \<lfloor>log 2 a\<rfloor> (- 1022)"
  have k: "- 1022 \<le> k" by (simp add: k_def)
  have "f64_quantum a * 2 ^ 1074 = 2 powi (k - 52) * 2 powi 1074"
    by (simp add: f64_quantum_def k_def)
  also have "\<dots> = 2 powi ((k - 52) + 1074)"
    by (rule power_int_add[symmetric]) simp
  also have "\<dots> = 2 powi (k + 1022)" by (simp add: algebra_simps)
  also have "\<dots> = 2 ^ nat (k + 1022)" using k by (simp add: power_int_def)
  finally have "f64_quantum a * 2 ^ 1074 = of_int (2 ^ nat (k + 1022))" by simp
  then show ?thesis by (simp only: Ints_of_int)
qed

lemma round_f64_positive:
  assumes r: "0 < r" and small: "r \<le> 2 ^ 1000"
  shows "\<exists>z. round_f64 r = Fin z \<and> 0 \<le> z \<and> z * 2 ^ 1074 \<in> \<int>
     \<and> \<bar>z - r\<bar> \<le> f64_quantum r / 2
     \<and> z = of_int (round_half_even (r / f64_quantum r)) * f64_quantum r"
proof -
  define q where "q = f64_quantum r"
  define m where "m = round_half_even (r / q)"
  define z where "z = of_int m * q"
  have q: "0 < q" by (simp add: q_def quantum_pos)
  have m: "0 \<le> m" using r q by (simp add: m_def round_half_even_nonneg)
  have "\<bar>of_int m - r / q\<bar> \<le> 1 / 2" unfolding m_def by (rule round_half_even_close)
  then have "\<bar>of_int m - r / q\<bar> * q \<le> 1 / 2 * q" using q by (intro mult_right_mono) simp_all
  moreover have "(of_int m - r / q) * q = z - r"
    using q by (simp add: z_def left_diff_distrib)
  then have "\<bar>of_int m - r / q\<bar> * q = \<bar>z - r\<bar>"
    using q abs_mult[of "of_int m - r / q" q] by simp
  ultimately have err: "\<bar>z - r\<bar> \<le> q / 2" by simp
  have z0: "0 \<le> z" using m q by (simp add: z_def)
  have "q \<le> 2 ^ 1000"
  proof -
    have "q \<le> r / 2 ^ 52 + 2 powi (- 1074)" unfolding q_def by (rule quantum_le[OF r])
    moreover have "r / 2 ^ 52 \<le> r / 2" using r by (simp add: field_simps)
    moreover have "(2::real) powi (- 1074) \<le> 2 powi 999" by (intro power_int_increasing) simp_all
    then have "(2::real) powi (- 1074) \<le> 2 ^ 1000 / 2" by simp
    ultimately show ?thesis using small by linarith
  qed
  with err small have "z \<le> 2 ^ 1000 + 2 ^ 1000 / 2" by linarith
  also have "\<dots> < (2::real) ^ 1024" by simp
  finally have fin: "\<not> 2 ^ 1024 \<le> z" by simp
  have grid: "z * 2 ^ 1074 \<in> \<int>"
  proof -
    have "q * 2 ^ 1074 \<in> \<int>" unfolding q_def by (rule quantum_grid)
    then have "of_int m * (q * 2 ^ 1074) \<in> \<int>" by (rule Ints_mult[OF Ints_of_int])
    then show ?thesis by (simp only: z_def mult.assoc)
  qed
  have "round_f64 r = Fin z"
    using r fin by (simp add: round_f64_def Let_def q_def[symmetric] m_def[symmetric] z_def[symmetric])
  with z0 grid err show ?thesis unfolding z_def m_def q_def by blast
qed

lemma round_f64_zero: "round_f64 0 = Fin 0"
  by (simp add: round_f64_def)

lemma round_f64_accurate:
  assumes r: "0 \<le> r" and small: "r \<le> 2 ^ 1000"
  shows "\<exists>z. round_f64 r = Fin z \<and> 0 \<le> z \<and> z * 2 ^ 1074 \<in> \<int>
     \<and> \<bar>z - r\<bar> \<le> r / 2 ^ 53 + 2 powi (- 1075)"
proof (cases "r = 0")
  case True
  have "(0::real) \<le> 2 powi (- 1075)" by (rule zero_le_power_int) simp
  then show ?thesis using True by (simp only: round_f64_zero) simp
next
  case False
  with r have pos: "0 < r" by simp
  from round_f64_positive[OF pos small] obtain z where
    z: "round_f64 r = Fin z" "0 \<le> z" "z * 2 ^ 1074 \<in> \<int>" "\<bar>z - r\<bar> \<le> f64_quantum r / 2"
    by blast
  have "f64_quantum r / 2 \<le> (r / 2 ^ 52 + 2 powi (- 1074)) / 2"
    using quantum_le[OF pos] by simp
  also have "\<dots> = r / 2 ^ 52 / 2 + 2 powi (- 1074) / 2" by (rule add_divide_distrib)
  also have "r / 2 ^ 52 / 2 = r / 2 ^ 53" by simp
  also have "(2::real) powi (- 1074) / 2 = 2 powi (- 1075)"
    using power_int_diff[of "2::real" "- 1074" 1] by simp
  finally have "\<bar>z - r\<bar> \<le> r / 2 ^ 53 + 2 powi (- 1075)" using z(4) by linarith
  with z show ?thesis by blast
qed

lemma round_f64_accurate_grid:
  assumes r: "0 \<le> r" and small: "r \<le> 2 ^ 1000" and grid: "r * 2 ^ 1074 \<in> \<int>"
  shows "\<exists>z. round_f64 r = Fin z \<and> 0 \<le> z \<and> z * 2 ^ 1074 \<in> \<int> \<and> \<bar>z - r\<bar> \<le> r / 2 ^ 53"
proof (cases "r = 0")
  case True
  then show ?thesis by (simp only: round_f64_zero) simp
next
  case False
  with r have pos: "0 < r" by simp
  from round_f64_positive[OF pos small] obtain z where
    z: "round_f64 r = Fin z" "0 \<le> z" "z * 2 ^ 1074 \<in> \<int>" "\<bar>z - r\<bar> \<le> f64_quantum r / 2"
      "z = of_int (round_half_even (r / f64_quantum r)) * f64_quantum r"
    by blast
  show ?thesis
  proof (cases "2 powi (- 1022) \<le> r")
    case True
    have "f64_quantum r / 2 \<le> (r / 2 ^ 52) / 2" using quantum_normal[OF True] by simp
    also have "\<dots> = r / 2 ^ 53" by simp
    finally have "\<bar>z - r\<bar> \<le> r / 2 ^ 53" using z(4) by linarith
    with z show ?thesis by blast
  next
    case False
    then have q: "f64_quantum r = 2 powi (- 1074)" using quantum_subnormal[OF pos] by simp
    from grid obtain n where n: "r * 2 ^ 1074 = of_int n" by (rule Ints_cases)
    have "r / f64_quantum r = r * 2 ^ 1074" unfolding q by (simp add: power_int_minus field_simps)
    then have "r / f64_quantum r = of_int n" using n by simp
    then have "z = of_int n * f64_quantum r" using z(5) by (simp only: round_half_even_of_int)
    also have "\<dots> = (r * 2 ^ 1074) * 2 powi (- 1074)" using n q by simp
    also have "\<dots> = r" by (simp add: power_int_minus field_simps)
    finally have "z = r" .
    with z pos show ?thesis by simp
  qed
qed

lemma f64_finite_cases:
  assumes "f64_finite x"
  obtains a where "x = F64 (Fin a)"
proof -
  obtain y where y: "x = F64 y" by (cases x)
  with assms have "is_finite y" by simp
  then obtain a where "y = Fin a" by (cases y) simp_all
  with y that show ?thesis by simp
qed

lemma on_grid_iff: "(of_int \<lfloor>v\<rfloor> = (v::real)) = (v \<in> \<int>)"
  by (metis Ints_of_int of_int_floor)

lemma f64_nonneg_F64:
  "f64_nonneg (F64 (Fin z)) = (0 \<le> z \<and> z * 2 ^ 1074 \<in> \<int>)"
  by (simp only: f64_nonneg_def f64_finite.simps is_finite.simps f64_value.simps on_grid_iff simp_thms)

lemma f64_times_probability:
  assumes x: "f64_probability x" and y: "f64_probability y"
  shows "f64_nonneg (x * y) \<and> f64_value (x * y) \<le> 2"
proof -
  from x obtain a where a: "x = F64 (Fin a)" "0 \<le> a" "a \<le> 1"
    by (auto simp add: f64_probability_def elim: f64_finite_cases)
  from y obtain b where b: "y = F64 (Fin b)" "0 \<le> b" "b \<le> 1"
    by (auto simp add: f64_probability_def elim: f64_finite_cases)
  have r0: "0 \<le> a * b" using a b by simp
  have r1: "a * b \<le> 1" using a b by (simp add: mult_le_one)
  have "(1::real) \<le> 2 ^ 1000" by (rule one_le_power) simp
  with r1 have small: "a * b \<le> 2 ^ 1000" by linarith
  from round_f64_accurate[OF r0 small] obtain z where
    z: "round_f64 (a * b) = Fin z" "0 \<le> z" "z * 2 ^ 1074 \<in> \<int>"
      "\<bar>z - a * b\<bar> \<le> a * b / 2 ^ 53 + 2 powi (- 1075)"
    by blast
  have "(2::real) powi (- 1075) \<le> 2 powi (- 1)" by (intro power_int_increasing) simp_all
  then have eta: "(2::real) powi (- 1075) \<le> 1 / 2" by (simp add: power_int_minus)
  have "a * b / 2 ^ 53 \<le> a * b / 2" using r0 by (intro divide_left_mono) simp_all
  with r1 have "a * b / 2 ^ 53 \<le> 1 / 2" by linarith
  with z(4) eta r1 have "z \<le> 2" by linarith
  moreover have "x * y = F64 (Fin z)" using a(1) b(1) z(1) by simp
  ultimately show ?thesis using z(2,3) by (simp only: f64_nonneg_F64 f64_value.simps simp_thms)
qed

lemma f64_plus_nonneg:
  assumes x: "f64_nonneg x" and y: "f64_nonneg y"
    and small: "f64_value x + f64_value y \<le> 2 ^ 1000"
  shows "f64_nonneg (x + y)
     \<and> \<bar>f64_value (x + y) - (f64_value x + f64_value y)\<bar> \<le> (f64_value x + f64_value y) / 2 ^ 53"
proof -
  from x obtain a where a: "x = F64 (Fin a)"
    by (auto simp add: f64_nonneg_def elim: f64_finite_cases)
  from y obtain b where b: "y = F64 (Fin b)"
    by (auto simp add: f64_nonneg_def elim: f64_finite_cases)
  from x a have a': "0 \<le> a" "a * 2 ^ 1074 \<in> \<int>" by (simp_all only: f64_nonneg_F64)
  from y b have b': "0 \<le> b" "b * 2 ^ 1074 \<in> \<int>" by (simp_all only: f64_nonneg_F64)
  have r0: "0 \<le> a + b" using a' b' by simp
  have r1: "a + b \<le> 2 ^ 1000" using small a b by simp
  have "a * 2 ^ 1074 + b * 2 ^ 1074 \<in> \<int>" using a'(2) b'(2) by (rule Ints_add)
  then have grid: "(a + b) * 2 ^ 1074 \<in> \<int>" by (simp only: distrib_right)
  from round_f64_accurate_grid[OF r0 r1 grid] obtain z where
    z: "round_f64 (a + b) = Fin z" "0 \<le> z" "z * 2 ^ 1074 \<in> \<int>" "\<bar>z - (a + b)\<bar> \<le> (a + b) / 2 ^ 53"
    by blast
  have "x + y = F64 (Fin z)" using a b z(1) by simp
  then show ?thesis using z(2,3,4) a b
    by (simp only: f64_nonneg_F64 f64_value.simps simp_thms)
qed

lemma f64_divide_nonneg:
  assumes x: "f64_finite x" "0 \<le> f64_value x" and y: "f64_finite y" "0 < f64_value y"
    and small: "f64_value x / f64_value y \<le> 2 ^ 1000"
  shows "f64_finite (x / y) \<and> 0 \<le> f64_value (x / y)
     \<and> \<bar>f64_value (x / y) - f64_value x / f64_value y\<bar>
          \<le> f64_value x / f64_value y / 2 ^ 53 + 2 powi (- 1075)"
proof -
  from x obtain a where a: "x = F64 (Fin a)" by (auto elim: f64_finite_cases)
  from y obtain b where b: "y = F64 (Fin b)" by (auto elim: f64_finite_cases)
  from x a have a': "0 \<le> a" by simp
  from y b have b': "0 < b" by simp
  have r0: "0 \<le> a / b" using a' b' by simp
  have r1: "a / b \<le> 2 ^ 1000" using small a b by simp
  from round_f64_accurate[OF r0 r1] obtain z where
    z: "round_f64 (a / b) = Fin z" "0 \<le> z" "\<bar>z - a / b\<bar> \<le> a / b / 2 ^ 53 + 2 powi (- 1075)"
    by blast
  have "x / y = F64 (Fin z)" using a b b' z(1) by simp
  then show ?thesis using z(2,3) a b
    by (simp only: f64_finite.simps is_finite.simps f64_value.simps simp_thms)
qed

lemma foldl_upt_Suc:
  "foldl (+) acc (map p [0..<Suc n]) = foldl (+) acc (map p [0..<n]) + p n"
  by simp

lemma f64_sum_bounds:
  assumes p: "\<And>j. j < n \<Longrightarrow> f64_nonneg (p j) \<and> f64_value (p j) \<le> 2"
    and n: "n \<le> 4000000"
  shows "f64_nonneg (foldl (+) 0 (map p [0..<n]))
     \<and> f64_value (foldl (+) 0 (map p [0..<n])) \<le> 3 * real n
     \<and> (1 - 1 / 2 ^ 53) ^ n * (\<Sum>j<n. f64_value (p j)) \<le> f64_value (foldl (+) 0 (map p [0..<n]))
     \<and> f64_value (foldl (+) 0 (map p [0..<n])) \<le> (1 + 1 / 2 ^ 53) ^ n * (\<Sum>j<n. f64_value (p j))"
  using p n
proof (induction n)
  case 0
  have "f64_nonneg 0" by (simp add: zero_float64_def f64_nonneg_def)
  then show ?case by (simp add: zero_float64_def)
next
  case (Suc n)
  define u :: real where "u = 1 / 2 ^ 53"
  define s where "s = foldl (+) 0 (map p [0..<n])"
  define S where "S = (\<Sum>j<n. f64_value (p j))"
  define x where "x = f64_value (p n)"
  have u: "0 < u" "u < 1" by (simp_all add: u_def)
  have IH: "f64_nonneg s" "f64_value s \<le> 3 * real n" "(1 - u) ^ n * S \<le> f64_value s"
    "f64_value s \<le> (1 + u) ^ n * S"
    using Suc.IH Suc.prems by (simp_all add: s_def S_def u_def)
  have pn: "f64_nonneg (p n)" "x \<le> 2" using Suc.prems(1)[of n] by (simp_all add: x_def)
  have x0: "0 \<le> x" using pn(1) by (simp add: f64_nonneg_def x_def)
  have s0: "0 \<le> f64_value s" using IH(1) by (simp add: f64_nonneg_def)
  have nb: "real n \<le> 4000000" using Suc.prems(2) by simp
  have "(3 * 4000000 + 2 :: real) \<le> 2 ^ 1000" by simp
  with IH(2) pn(2) nb have small: "f64_value s + f64_value (p n) \<le> 2 ^ 1000"
    by (simp add: x_def)
  from f64_plus_nonneg[OF IH(1) pn(1) small]
  have nn: "f64_nonneg (s + p n)"
    and err: "\<bar>f64_value (s + p n) - (f64_value s + x)\<bar> \<le> (f64_value s + x) * u"
    by (simp_all add: x_def u_def)
  have S0: "0 \<le> S" unfolding S_def using Suc.prems(1) by (intro sum_nonneg) (simp add: f64_nonneg_def)
  have up: "f64_value (s + p n) \<le> (1 + u) * (f64_value s + x)"
    using err by (simp add: algebra_simps abs_le_iff)
  have lo: "(1 - u) * (f64_value s + x) \<le> f64_value (s + p n)"
    using err by (simp add: algebra_simps abs_le_iff)
  have crude: "f64_value (s + p n) \<le> 3 * real (Suc n)"
  proof -
    have "(f64_value s + x) * u \<le> (3 * 4000000 + 2) * u"
      using IH(2) pn(2) nb u(1) by (intro mult_right_mono) simp_all
    also have "\<dots> \<le> 1" by (simp add: u_def)
    finally show ?thesis using up IH(2) pn(2) by (simp add: algebra_simps)
  qed
  have U1: "1 \<le> (1 + u) ^ n" using u by (intro one_le_power) simp
  have L1: "(1 - u) ^ n \<le> 1" using u by (intro power_le_one) simp_all
  have L0: "0 \<le> (1 - u) ^ n" using u by simp
  have upper: "f64_value (s + p n) \<le> (1 + u) ^ Suc n * (S + x)"
  proof -
    have "x \<le> (1 + u) ^ n * x" using U1 x0 by (simp add: mult_le_cancel_right1)
    then have "f64_value s + x \<le> (1 + u) ^ n * S + (1 + u) ^ n * x" using IH(4) by linarith
    then have "(1 + u) * (f64_value s + x) \<le> (1 + u) * ((1 + u) ^ n * S + (1 + u) ^ n * x)"
      using u by (intro mult_left_mono) simp_all
    also have "\<dots> = (1 + u) ^ Suc n * (S + x)" by (simp add: algebra_simps)
    finally show ?thesis using up by linarith
  qed
  have lower: "(1 - u) ^ Suc n * (S + x) \<le> f64_value (s + p n)"
  proof -
    have "(1 - u) ^ n * x \<le> x" using L1 x0 by (simp add: mult_le_cancel_right2)
    then have "(1 - u) ^ n * S + (1 - u) ^ n * x \<le> f64_value s + x" using IH(3) by linarith
    then have "(1 - u) * ((1 - u) ^ n * S + (1 - u) ^ n * x) \<le> (1 - u) * (f64_value s + x)"
      using u by (intro mult_left_mono) simp_all
    moreover have "(1 - u) * ((1 - u) ^ n * S + (1 - u) ^ n * x) = (1 - u) ^ Suc n * (S + x)"
      by (simp add: algebra_simps)
    ultimately show ?thesis using lo by linarith
  qed
  have sum: "(\<Sum>j<Suc n. f64_value (p j)) = S + x" by (simp add: S_def x_def)
  have fold: "foldl (+) 0 (map p [0..<Suc n]) = s + p n" by (simp add: s_def)
  show ?case
    unfolding fold sum using nn crude lower upper by (simp only: u_def simp_thms)
qed

lemma round_f64_underflow:
  assumes r: "0 \<le> r" and tiny: "r < 2 powi (- 1075)"
  shows "round_f64 r = Fin 0"
proof (cases "r = 0")
  case True
  then show ?thesis by (simp only: round_f64_zero)
next
  case False
  with r have pos: "0 < r" by simp
  have "(2::real) powi (- 1075) \<le> 2 powi (- 1022)" by (intro power_int_increasing) simp_all
  with tiny have sub: "r < 2 powi (- 1022)" by linarith
  have "(2::real) powi (- 1022) \<le> 2 powi 1000" by (intro power_int_increasing) simp_all
  with sub have small: "r \<le> 2 ^ 1000" by simp
  have q: "f64_quantum r = 2 powi (- 1074)" by (rule quantum_subnormal[OF pos sub])
  have half: "(2::real) powi (- 1075) = 2 powi (- 1074) / 2"
    using power_int_diff[of "2::real" "- 1074" 1] by simp
  have qpos: "(0::real) < 2 powi (- 1074)" by (rule zero_less_power_int) simp
  have "r / 2 powi (- 1074) < 1 / 2"
    using tiny qpos unfolding half by (simp add: field_simps del: power_int_minus)
  moreover have "0 \<le> r / 2 powi (- 1074)" using pos qpos by simp
  ultimately have "round_half_even (r / 2 powi (- 1074)) = 0"
    unfolding round_half_even_def Let_def by (auto; linarith)
  moreover from round_f64_positive[OF pos small] have
    "round_f64 r = Fin (of_int (round_half_even (r / f64_quantum r)) * f64_quantum r)"
    by auto
  ultimately show ?thesis unfolding q by simp
qed

lemma round_f64_overflow:
  assumes big: "2 ^ 1024 \<le> r"
  shows "round_f64 r = PInf"
proof -
  define E where "E = \<lfloor>log 2 r\<rfloor>"
  have "(0::real) < 2 ^ 1024" by simp
  with big have pos: "0 < r" by linarith
  have lo: "2 powi E \<le> r" and hi: "r < 2 powi (E + 1)"
    using exponent_bounds[OF pos] by (simp_all add: E_def)
  have E: "1024 \<le> E"
  proof (rule ccontr)
    assume "\<not> 1024 \<le> E"
    then have "E + 1 \<le> 1024" by linarith
    then have "(2::real) powi (E + 1) \<le> 2 powi 1024" by (intro power_int_increasing) simp_all
    with hi big show False by simp
  qed
  define q where "q = f64_quantum r"
  have "max E (- 1022) = E" using E by (intro max.absorb1) linarith
  then have q: "q = 2 powi (E - 52)" by (simp only: q_def f64_quantum_def E_def)
  have qpos: "0 < q" unfolding q_def by (rule quantum_pos)
  have qE: "2 ^ 52 * q = 2 powi E"
    unfolding q using power_int_add[of "2::real" 52 "E - 52"] by simp
  define m where "m = round_half_even (r / q)"
  have "2 ^ 52 * q \<le> r" using lo qE by simp
  then have "2 ^ 52 \<le> r / q" using qpos by (simp add: pos_le_divide_eq)
  moreover have "\<bar>of_int m - r / q\<bar> \<le> 1 / 2" unfolding m_def by (rule round_half_even_close)
  ultimately have "(2 ^ 52 :: real) - 1 / 2 \<le> of_int m" by linarith
  then have "(2 ^ 52 :: real) - 1 < of_int m" by linarith
  then have "(of_int (2 ^ 52 - 1) :: real) < of_int m" by simp
  then have "2 ^ 52 - 1 < m" by (simp only: of_int_less_iff)
  then have "2 ^ 52 \<le> m" by linarith
  then have "(2 ^ 52 :: real) \<le> of_int m" by (metis of_int_le_iff of_int_numeral of_int_power)
  then have "2 ^ 52 * q \<le> of_int m * q" using qpos by (intro mult_right_mono) simp_all
  then have "2 powi E \<le> of_int m * q" using qE by simp
  moreover have "(2::real) powi 1024 \<le> 2 powi E" using E by (intro power_int_increasing) simp_all
  ultimately have "2 ^ 1024 \<le> of_int m * q" by simp
  then show ?thesis
    using pos by (simp add: round_f64_def Let_def q_def[symmetric] m_def[symmetric])
qed

lemma round_f64_representable:
  assumes lo: "2 powi k \<le> r" and hi: "r < 2 powi (k + 1)"
    and k: "- 1022 \<le> k" "k \<le> 998"
    and grid: "r * 2 powi (52 - k) \<in> \<int>"
  shows "round_f64 r = Fin r"
proof -
  have "(0::real) < 2 powi k" by (rule zero_less_power_int) simp
  with lo have pos: "0 < r" by linarith
  have "(2::real) powi (k + 1) \<le> 2 powi 1000" using k by (intro power_int_increasing) simp_all
  with hi have small: "r \<le> 2 ^ 1000" by simp
  have "\<lfloor>log 2 r\<rfloor> = k"
    using floor_log_eq_powr_iff[of r 2 k] pos lo hi
      powr_real_of_int'[of 2 k] powr_real_of_int'[of 2 "k + 1"] by simp
  moreover have "max k (- 1022) = k" using k by (intro max.absorb1)
  ultimately have q: "f64_quantum r = 2 powi (k - 52)" by (simp only: f64_quantum_def)
  have inv: "r / 2 powi (k - 52) = r * 2 powi (52 - k)"
    using power_int_minus[of "2::real" "k - 52"] by (simp add: field_simps)
  from grid obtain n where n: "r * 2 powi (52 - k) = of_int n" by (rule Ints_cases)
  from round_f64_positive[OF pos small] have
    "round_f64 r = Fin (of_int (round_half_even (r / f64_quantum r)) * f64_quantum r)"
    by auto
  also have "round_half_even (r / f64_quantum r) = n" unfolding q inv n by (rule round_half_even_of_int)
  also have "of_int n * f64_quantum r = r * 2 powi (52 - k) * 2 powi (k - 52)" unfolding q n ..
  also have "\<dots> = r * (2 powi (52 - k) * 2 powi (k - 52))" by (simp only: mult.assoc)
  also have "(2::real) powi (52 - k) * 2 powi (k - 52) = 1"
    using power_int_add[of "2::real" "52 - k" "k - 52"] by simp
  finally show ?thesis by simp
qed

lemma round_f64_one: "round_f64 1 = Fin 1"
  by (rule round_f64_representable[of 0]) simp_all

lemma round_f64_two: "round_f64 2 = Fin 2"
  by (rule round_f64_representable[of 1]) simp_all

lemma f64_divide_by_zero: "\<not> f64_finite (x / 0)"
proof -
  obtain a where a: "x = F64 a" by (cases x)
  show ?thesis unfolding a zero_float64_def by (cases a) simp_all
qed

section \<open>Gamma: what the function returns\<close>

text \<open>
  The two loops of \<^verbatim>\<open>calculate_gamma\<close> fill every cell once, in every arithmetic: the
  function returns whenever the shapes agree, and the cell \<open>(i, t)\<close> holds the quotient of
  the product by the sum of the products, each operation being the one of the arithmetic.
\<close>

lemma py_sum_gen_values:
  assumes "\<And>j. j \<in> set js \<Longrightarrow> f j = Inr (g j)"
  shows "py_sum_gen js f acc = Inr (foldl (+) acc (map g js))"
  using assms by (induction js arbitrary: acc) auto

lemma fill_column:
  assumes g: "has_shape N T g" and t: "t < T" and n: "n \<le> N"
    and body: "\<And>i s. i < N \<Longrightarrow> has_shape N T s \<Longrightarrow> body i s = Inr (s[i := (s ! i)[t := v i]])"
  shows "\<exists>g'. py_for [0..<n] body g = Inr g' \<and> has_shape N T g'
     \<and> (\<forall>i<N. \<forall>t'<T. g' ! i ! t' = (if i < n \<and> t' = t then v i else g ! i ! t'))"
  using n
proof (induction n)
  case 0
  with g show ?case by simp
next
  case (Suc n)
  then obtain g1 where g1: "py_for [0..<n] body g = Inr g1" "has_shape N T g1"
    "\<forall>i<N. \<forall>t'<T. g1 ! i ! t' = (if i < n \<and> t' = t then v i else g ! i ! t')"
    by auto
  let ?g2 = "g1[n := (g1 ! n)[t := v n]]"
  from Suc.prems have nN: "n < N" by simp
  have step: "body n g1 = Inr ?g2" using body[OF nN g1(2)] .
  have run: "py_for [0..<Suc n] body g = Inr ?g2"
    using g1(1) step by (simp add: py_for_append)
  have shape: "has_shape N T ?g2" using has_shape_update[OF g1(2)] .
  have len: "length g1 = N" "length (g1 ! n) = T"
    using has_shape_length[OF g1(2)] has_shape_row[OF g1(2) nN] by auto
  have "?g2 ! i ! t' = (if i < Suc n \<and> t' = t then v i else g ! i ! t')" if "i < N" "t' < T" for i t'
  proof (cases "i = n")
    case True
    then show ?thesis using that len t g1(3) nN by (auto simp add: nth_list_update)
  next
    case False
    then show ?thesis using that len g1(3) by (auto simp add: nth_list_update)
  qed
  with run shape show ?case by blast
qed

lemma fill_matrix:
  assumes g: "has_shape N T g" and m: "m \<le> T"
    and body: "\<And>t s. t < T \<Longrightarrow> has_shape N T s \<Longrightarrow>
       \<exists>s'. body t s = Inr s' \<and> has_shape N T s'
          \<and> (\<forall>i<N. \<forall>t'<T. s' ! i ! t' = (if t' = t then v i t else s ! i ! t'))"
  shows "\<exists>g'. py_for [0..<m] body g = Inr g' \<and> has_shape N T g'
     \<and> (\<forall>i<N. \<forall>t'<T. g' ! i ! t' = (if t' < m then v i t' else g ! i ! t'))"
  using m
proof (induction m)
  case 0
  with g show ?case by simp
next
  case (Suc m)
  then obtain g1 where g1: "py_for [0..<m] body g = Inr g1" "has_shape N T g1"
    "\<forall>i<N. \<forall>t'<T. g1 ! i ! t' = (if t' < m then v i t' else g ! i ! t')"
    by auto
  from Suc.prems have mT: "m < T" by simp
  from body[OF mT g1(2)] obtain g2 where g2: "body m g1 = Inr g2" "has_shape N T g2"
    "\<forall>i<N. \<forall>t'<T. g2 ! i ! t' = (if t' = m then v i m else g1 ! i ! t')"
    by blast
  have run: "py_for [0..<Suc m] body g = Inr g2"
    using g1(1) g2(1) by (simp add: py_for_append)
  have "g2 ! i ! t' = (if t' < Suc m then v i t' else g ! i ! t')" if "i < N" "t' < T" for i t'
    using that g1(3) g2(3) by (auto simp add: less_Suc_eq)
  with run g2(2) show ?case by blast
qed

lemma calculate_gamma_entries:
  assumes al: "has_shape N T alpha" and be: "has_shape N T beta"
    and A: "length A = N" and obs: "length obs_seq = T"
  shows "\<exists>G. calculate_gamma alpha beta obs_seq A = Inr G \<and> has_shape N T G
     \<and> (\<forall>i<N. \<forall>t<T. G ! i ! t =
           alpha ! i ! t * beta ! i ! t
             / foldl (+) 0 (map (\<lambda>j. alpha ! j ! t * beta ! j ! t) [0..<N]))"
proof -
  let ?den = "\<lambda>t. foldl (+) 0 (map (\<lambda>j. alpha ! j ! t * beta ! j ! t) [0..<N])"
  let ?v = "\<lambda>i t. alpha ! i ! t * beta ! i ! t / ?den t"
  have den: "gamma_denominator alpha beta N t = Inr (?den t)" if "t < T" for t
    unfolding gamma_denominator_def
    by (rule py_sum_gen_values) (simp add: np_get2_shape[OF al] np_get2_shape[OF be] that)
  have cell: "gamma_cell alpha beta N t i s = Inr (s[i := (s ! i)[t := ?v i t]])"
    if "t < T" "i < N" "has_shape N T s" for t i s
    using that by (simp add: gamma_cell_def np_get2_shape[OF al] np_get2_shape[OF be] den
        np_set2_shape)
  have column: "\<exists>s'. py_for [0..<N] (gamma_cell alpha beta N t) s = Inr s' \<and> has_shape N T s'
          \<and> (\<forall>i<N. \<forall>t'<T. s' ! i ! t' = (if t' = t then ?v i t else s ! i ! t'))"
    if "t < T" "has_shape N T s" for t s
    using fill_column[OF that(2) that(1) order_refl, of "gamma_cell alpha beta N t" "\<lambda>i. ?v i t"]
      cell[OF that(1)] by simp
  from fill_matrix[OF has_shape_zeros order_refl, of T N
      "\<lambda>t. py_for [0..<N] (gamma_cell alpha beta N t)" ?v] column
  obtain G where "py_for [0..<T] (\<lambda>t. py_for [0..<N] (gamma_cell alpha beta N t)) (np_zeros N T) = Inr G"
    "has_shape N T G" "\<forall>i<N. \<forall>t'<T. G ! i ! t' = (if t' < T then ?v i t' else np_zeros N T ! i ! t')"
    by blast
  then show ?thesis
    by (auto simp add: calculate_gamma_def Let_def A obs)
qed


text \<open>
  One column in float64. When the products are finite, not negative and at most 2, there
  are at most 4,000,000 of them and their float64 sum is not zero, every quotient is finite
  and the quotients add up, as real numbers, to 1 within 1e-9: the sum carries a relative
  error of at most \<open>n\<close> roundings, each quotient one more and an absolute error of at most
  2 to the power -1075.
\<close>

lemma f64_normalised_column:
  assumes p: "\<And>j. j < n \<Longrightarrow> f64_nonneg (p j) \<and> f64_value (p j) \<le> 2"
    and n: "n \<le> 4000000"
    and nz: "f64_value (foldl (+) 0 (map p [0..<n])) \<noteq> 0"
  shows "(\<forall>i<n. f64_finite (p i / foldl (+) 0 (map p [0..<n])))
     \<and> \<bar>(\<Sum>i<n. f64_value (p i / foldl (+) 0 (map p [0..<n]))) - 1\<bar> \<le> 1 / 10 ^ 9"
proof -
  define u :: real where "u = 1 / 2 ^ 53"
  define eta :: real where "eta = 2 powi (- 1075)"
  define c :: real where "c = 4000000 / 2 ^ 53"
  define d where "d = foldl (+) 0 (map p [0..<n])"
  define D where "D = (\<Sum>j<n. f64_value (p j))"
  define L where "L = (1 - u) ^ n"
  define U where "U = (1 + u) ^ n"
  define rho where "rho = D / f64_value d"
  have u: "0 < u" "u < 1" by (simp_all add: u_def)
  have c: "0 < c" "c < 1 / 2" by (simp_all add: c_def)
  have eta0: "0 \<le> eta" unfolding eta_def by (rule zero_le_power_int) simp
  have "(2::real) powi (- 1075) \<le> 2 powi (- 100)" by (intro power_int_increasing) simp_all
  then have "eta \<le> 1 / 2 ^ 100" by (simp add: eta_def power_int_minus field_simps)
  then have "4000000 * eta \<le> 4000000 * (1 / 2 ^ 100)" by (intro mult_left_mono) simp_all
  also have "\<dots> \<le> 1 / 10 ^ 12" by simp
  finally have eta: "4000000 * eta \<le> 1 / 10 ^ 12" .
  have nr: "real n \<le> 4000000" using n by simp
  from f64_sum_bounds[OF p n]
  have nn: "f64_nonneg d" and lo: "L * D \<le> f64_value d" and hi: "f64_value d \<le> U * D"
    by (simp_all add: d_def D_def L_def U_def u_def)
  have vd: "0 < f64_value d" using nn nz by (simp add: f64_nonneg_def d_def)
  have fd: "f64_finite d" using nn by (simp add: f64_nonneg_def)
  have U0: "0 < U" unfolding U_def using u by (intro zero_less_power) simp
  have L0: "0 < L" unfolding L_def using u by (intro zero_less_power) simp
  have D0: "0 < D"
  proof (rule ccontr)
    assume "\<not> 0 < D"
    then have "U * D \<le> 0" using U0 by (simp add: mult_le_0_iff)
    with hi vd show False by linarith
  qed
  have "1 + real n * (- u) \<le> (1 + (- u)) ^ n" using u by (intro Bernoulli_inequality) simp
  then have "1 - real n * u \<le> L" by (simp add: L_def)
  moreover have "real n * u \<le> c" using nr u by (simp add: c_def u_def field_simps)
  ultimately have Lc: "1 - c \<le> L" by linarith
  have UL: "U * L \<le> 1"
  proof -
    have "U * L = ((1 + u) * (1 - u)) ^ n" by (simp add: U_def L_def power_mult_distrib)
    also have "(1 + u) * (1 - u) = 1 - u * u" by (simp add: algebra_simps)
    also have "(1 - u * u) ^ n \<le> 1" using u by (intro power_le_one) (simp_all add: mult_le_one)
    finally show ?thesis .
  qed
  have rho_hi: "rho \<le> 1 / (1 - c)"
  proof -
    have "rho * L = L * D / f64_value d" by (simp add: rho_def)
    also have "\<dots> \<le> 1" using lo vd by (simp add: pos_divide_le_eq)
    finally have "rho \<le> 1 / L" using L0 by (simp add: pos_le_divide_eq)
    also have "\<dots> \<le> 1 / (1 - c)" using Lc c by (intro divide_left_mono) simp_all
    finally show ?thesis .
  qed
  have rho_lo: "1 - c \<le> rho"
  proof -
    have "L * f64_value d \<le> L * (U * D)" using hi L0 by (intro mult_left_mono) simp_all
    also have "\<dots> = (U * L) * D" by simp
    also have "\<dots> \<le> 1 * D" using UL D0 by (intro mult_right_mono) simp_all
    finally have "L * f64_value d \<le> D" by simp
    then have "L \<le> rho" using vd by (simp add: rho_def pos_le_divide_eq)
    with Lc show ?thesis by linarith
  qed
  have rho0: "0 < rho" using rho_lo c by linarith
  have "1 / (1 - c) \<le> (2::real)" using c by (simp add: field_simps)
  with rho_hi have rho2: "rho \<le> 2" by linarith
  have p0: "0 \<le> f64_value (p j)" if "j < n" for j using p[OF that] by (simp add: f64_nonneg_def)
  have pf: "f64_finite (p j)" if "j < n" for j using p[OF that] by (simp add: f64_nonneg_def)
  have pD: "f64_value (p i) \<le> D" if "i < n" for i
    unfolding D_def using that p0 by (intro member_le_sum) simp_all
  have cell: "f64_finite (p i / d) \<and> 0 \<le> f64_value (p i / d)
      \<and> \<bar>f64_value (p i / d) - f64_value (p i) / f64_value d\<bar>
          \<le> f64_value (p i) / f64_value d * u + eta" if "i < n" for i
  proof -
    have "f64_value (p i) / f64_value d \<le> rho"
      unfolding rho_def using pD[OF that] vd by (intro divide_right_mono) simp_all
    also have "rho \<le> 2 ^ 1000" using rho2 by (rule order_trans) simp
    finally have small: "f64_value (p i) / f64_value d \<le> 2 ^ 1000" .
    from f64_divide_nonneg[OF pf[OF that] p0[OF that] fd vd small]
    show ?thesis by (simp add: u_def eta_def)
  qed
  have sumq: "(\<Sum>i<n. f64_value (p i) / f64_value d) = rho"
    by (simp add: rho_def D_def sum_divide_distrib)
  have "\<bar>(\<Sum>i<n. f64_value (p i / d)) - rho\<bar>
      = \<bar>\<Sum>i<n. (f64_value (p i / d) - f64_value (p i) / f64_value d)\<bar>"
    by (simp add: sum_subtractf sumq)
  also have "\<dots> \<le> (\<Sum>i<n. \<bar>f64_value (p i / d) - f64_value (p i) / f64_value d\<bar>)"
    by (rule sum_abs)
  also have "\<dots> \<le> (\<Sum>i<n. f64_value (p i) / f64_value d * u + eta)"
    using cell by (intro sum_mono) simp
  also have "\<dots> = (\<Sum>i<n. f64_value (p i) / f64_value d * u) + (\<Sum>i<n. eta)"
    by (rule sum.distrib)
  also have "(\<Sum>i<n. f64_value (p i) / f64_value d * u) = rho * u"
    unfolding sumq[symmetric] by (rule sum_distrib_right[symmetric])
  also have "(\<Sum>i<n. eta) = real n * eta" by simp
  finally have dev: "\<bar>(\<Sum>i<n. f64_value (p i / d)) - rho\<bar> \<le> rho * u + real n * eta" .
  have neta: "real n * eta \<le> 1 / 10 ^ 12"
  proof -
    have "real n * eta \<le> 4000000 * eta" using nr eta0 by (intro mult_right_mono) simp_all
    with eta show ?thesis by linarith
  qed
  have "rho * u \<le> 2 * u" using rho2 u by (intro mult_right_mono) simp_all
  also have "\<dots> \<le> 1 / 10 ^ 12" by (simp add: u_def)
  finally have rhou: "rho * u \<le> 1 / 10 ^ 12" .
  have "1 \<le> (1 + 1 / (2 * 10 ^ 9)) * (1 - c)" by (simp add: c_def)
  then have "1 / (1 - c) \<le> 1 + 1 / (2 * 10 ^ 9)" using c by (simp add: pos_divide_le_eq)
  with rho_hi have up: "rho \<le> 1 + 1 / (2 * 10 ^ 9)" by linarith
  have "c \<le> 1 / (2 * 10 ^ 9)" by (simp add: c_def)
  with rho_lo have low: "1 - 1 / (2 * 10 ^ 9) \<le> rho" by linarith
  have "\<bar>(\<Sum>i<n. f64_value (p i / d)) - 1\<bar> \<le> 1 / (2 * 10 ^ 9) + 2 / 10 ^ 12"
    using dev neta rhou up low by linarith
  also have "\<dots> \<le> 1 / 10 ^ 9" by simp
  finally have "\<bar>(\<Sum>i<n. f64_value (p i / d)) - 1\<bar> \<le> 1 / 10 ^ 9" .
  with cell show ?thesis unfolding d_def by blast
qed

lemma round_f64_half: "round_f64 (1 / 2) = Fin (1 / 2)"
  by (rule round_f64_representable[of "- 1"]) simp_all

lemma probability_entry:
  assumes "has_shape N T X" and "list_all (list_all f64_probability) X" and "i < N" and "t < T"
  shows "f64_probability (X ! i ! t)"
  using assms by (simp add: has_shape_def list_all_length)

text \<open>
  C7, as amended. For lattices \<alpha> and \<beta> of shape N\<times>T whose entries are float64
  probabilities (finite, between 0 and 1), with at most 4,000,000 states, and whose column
  denominators as the code computes them, \<^verbatim>\<open>sum(alpha[j, t] * beta[j, t] for j in range(row))\<close>
  in float64, are not zero: the function returns \<gamma>, every entry is finite and is the
  float64 quotient of the float64 product \<alpha>[i][t] \<cdot> \<beta>[i][t] by that denominator, and
  the values of every column add up, as real numbers, to 1 within 1e-9.
\<close>

theorem gamma_normalised_on_float64_probabilities:
  fixes alpha beta :: "float64 list list"
  assumes al: "has_shape N T alpha" and be: "has_shape N T beta"
    and A: "length A = N" and obs: "length obs_seq = T"
    and N: "N \<le> 4000000"
    and pa: "list_all (list_all f64_probability) alpha"
    and pb: "list_all (list_all f64_probability) beta"
    and den: "list_all (\<lambda>t. f64_value (py_sum (map (\<lambda>j. alpha ! j ! t * beta ! j ! t) [0..<N])) \<noteq> 0)
                [0..<T]"
  shows "\<exists>G. calculate_gamma alpha beta obs_seq A = Inr G \<and> has_shape N T G
     \<and> (\<forall>i<N. \<forall>t<T. f64_finite (G ! i ! t)
          \<and> G ! i ! t = alpha ! i ! t * beta ! i ! t
                / py_sum (map (\<lambda>j. alpha ! j ! t * beta ! j ! t) [0..<N]))
     \<and> (\<forall>t<T. \<bar>(\<Sum>i<N. f64_value (G ! i ! t)) - 1\<bar> \<le> 1 / 10 ^ 9)"
proof -
  let ?p = "\<lambda>t j. alpha ! j ! t * beta ! j ! t"
  let ?d = "\<lambda>t. foldl (+) 0 (map (?p t) [0..<N])"
  from calculate_gamma_entries[OF al be A obs] obtain G where
    G: "calculate_gamma alpha beta obs_seq A = Inr G" "has_shape N T G"
      "\<forall>i<N. \<forall>t<T. G ! i ! t = ?p t i / ?d t"
    by blast
  have column: "(\<forall>i<N. f64_finite (?p t i / ?d t))
      \<and> \<bar>(\<Sum>i<N. f64_value (?p t i / ?d t)) - 1\<bar> \<le> 1 / 10 ^ 9" if t: "t < T" for t
  proof (rule f64_normalised_column[OF _ N])
    fix j assume "j < N"
    then show "f64_nonneg (?p t j) \<and> f64_value (?p t j) \<le> 2"
      using probability_entry[OF al pa _ t] probability_entry[OF be pb _ t]
      by (intro f64_times_probability) simp_all
  next
    show "f64_value (?d t) \<noteq> 0" using den t by (simp add: list_all_length py_sum_def)
  qed
  have entries: "f64_finite (G ! i ! t) \<and> G ! i ! t = ?p t i / py_sum (map (?p t) [0..<N])"
    if "i < N" "t < T" for i t
    using G(3) column[OF that(2)] that by (simp add: py_sum_def)
  have sums: "\<bar>(\<Sum>i<N. f64_value (G ! i ! t)) - 1\<bar> \<le> 1 / 10 ^ 9" if t: "t < T" for t
  proof -
    have "(\<Sum>i<N. f64_value (G ! i ! t)) = (\<Sum>i<N. f64_value (?p t i / ?d t))"
      using G(3) t by (intro sum.cong) simp_all
    with column[OF t] show ?thesis by simp
  qed
  from G(1,2) entries sums show ?thesis by blast
qed

theorem gamma_normalised_on_float64_probabilities_witness:
  "has_shape 2 2 [[F64 (Fin 1), F64 (Fin (1 / 2))], [F64 (Fin 1), F64 (Fin (1 / 2))]]
   \<and> has_shape 2 2 [[F64 (Fin (1 / 2)), F64 (Fin 1)], [F64 (Fin (1 / 2)), F64 (Fin 1)]]
   \<and> length [[F64 (Fin 1), F64 (Fin 0)], [F64 (Fin 0), F64 (Fin 1)]] = 2 \<and> length [0, 1 :: nat] = 2
   \<and> (2 :: nat) \<le> 4000000
   \<and> list_all (list_all f64_probability) [[F64 (Fin 1), F64 (Fin (1 / 2))], [F64 (Fin 1), F64 (Fin (1 / 2))]]
   \<and> list_all (list_all f64_probability) [[F64 (Fin (1 / 2)), F64 (Fin 1)], [F64 (Fin (1 / 2)), F64 (Fin 1)]]
   \<and> list_all (\<lambda>t. f64_value (py_sum (map (\<lambda>j.
          [[F64 (Fin 1), F64 (Fin (1 / 2))], [F64 (Fin 1), F64 (Fin (1 / 2))]] ! j ! t
        * [[F64 (Fin (1 / 2)), F64 (Fin 1)], [F64 (Fin (1 / 2)), F64 (Fin 1)]] ! j ! t) [0..<2])) \<noteq> 0) [0..<2]
   \<and> (\<exists>G. calculate_gamma [[F64 (Fin 1), F64 (Fin (1 / 2))], [F64 (Fin 1), F64 (Fin (1 / 2))]]
             [[F64 (Fin (1 / 2)), F64 (Fin 1)], [F64 (Fin (1 / 2)), F64 (Fin 1)]] [0, 1]
             [[F64 (Fin 1), F64 (Fin 0)], [F64 (Fin 0), F64 (Fin 1)]] = Inr G
         \<and> has_shape 2 2 G
         \<and> \<bar>(\<Sum>i<2. f64_value (G ! i ! 0)) - 1\<bar> \<le> 1 / 10 ^ 9
         \<and> \<bar>(\<Sum>i<2. f64_value (G ! i ! 1)) - 1\<bar> \<le> 1 / 10 ^ 9)"
proof -
  let ?al = "[[F64 (Fin 1), F64 (Fin (1 / 2))], [F64 (Fin 1), F64 (Fin (1 / 2))]]"
  let ?be = "[[F64 (Fin (1 / 2)), F64 (Fin 1)], [F64 (Fin (1 / 2)), F64 (Fin 1)]]"
  let ?A = "[[F64 (Fin 1), F64 (Fin 0)], [F64 (Fin 0), F64 (Fin 1)]]"
  have h1: "has_shape 2 2 ?al" by (simp add: has_shape_def)
  have h2: "has_shape 2 2 ?be" by (simp add: has_shape_def)
  have h3: "length ?A = 2" by simp
  have h4: "length [0, 1 :: nat] = 2" by simp
  have h5: "(2 :: nat) \<le> 4000000" by simp
  have h6: "list_all (list_all f64_probability) ?al" by (simp add: f64_probability_def)
  have h7: "list_all (list_all f64_probability) ?be" by (simp add: f64_probability_def)
  have h8: "list_all (\<lambda>t. f64_value (py_sum (map (\<lambda>j. ?al ! j ! t * ?be ! j ! t) [0..<2])) \<noteq> 0) [0..<2]"
    by (simp add: py_sum_def upt_rec numeral_2_eq_2 zero_float64_def
        round_f64_half round_f64_one)
  from gamma_normalised_on_float64_probabilities[OF h1 h2 h3 h4 h5 h6 h7 h8] obtain G where
    G: "calculate_gamma ?al ?be [0, 1] ?A = Inr G" "has_shape 2 2 G"
      "\<forall>t<2. \<bar>(\<Sum>i<2. f64_value (G ! i ! t)) - 1\<bar> \<le> 1 / 10 ^ 9"
    by blast
  have "\<bar>(\<Sum>i<2. f64_value (G ! i ! 0)) - 1\<bar> \<le> 1 / 10 ^ 9" using G(3) by simp
  moreover have "\<bar>(\<Sum>i<2. f64_value (G ! i ! 1)) - 1\<bar> \<le> 1 / 10 ^ 9" using G(3) by simp
  ultimately show ?thesis using G(1,2) h1 h2 h3 h4 h5 h6 h7 h8 by blast
qed

text \<open>
  C7, the claim as stated: whenever the denominators \<Sum>j \<alpha>[j][t] \<cdot> \<beta>[j][t] are nonzero,
  the columns of \<gamma> sum to 1. With two states and both lattices \<^verbatim>\<open>2**-600\<close> throughout,
  the denominator is \<^verbatim>\<open>2**-1199\<close> as a real number, but each product underflows to 0.0,
  the computed denominator is 0.0 and \<gamma> is nan in both rows. With one state and both
  lattices \<^verbatim>\<open>2**600\<close> the product overflows to an infinity, so does the denominator, and
  \<gamma> is nan again.
\<close>

theorem gamma_underflow_returns_nan:
  "calculate_gamma [[F64 (Fin (1 / 2 ^ 600))], [F64 (Fin (1 / 2 ^ 600))]]
       [[F64 (Fin (1 / 2 ^ 600))], [F64 (Fin (1 / 2 ^ 600))]] [0]
       [[F64 (Fin 1), F64 (Fin 0)], [F64 (Fin 0), F64 (Fin 1)]]
     = Inr [[F64 NaN], [F64 NaN]]
   \<and> (1 / 2 ^ 600 * (1 / 2 ^ 600) + 1 / 2 ^ 600 * (1 / 2 ^ 600) :: real) \<noteq> 0
   \<and> calculate_gamma [[F64 (Fin (2 ^ 600))]] [[F64 (Fin (2 ^ 600))]] [0] [[F64 (Fin 1)]]
     = Inr [[F64 NaN]]"
proof -
  have under: "round_f64 (1 / 2 ^ 600 * (1 / 2 ^ 600)) = Fin 0"
    by (rule round_f64_underflow) (simp_all add: power_int_minus)
  have over: "round_f64 (2 ^ 600 * 2 ^ 600) = PInf"
    by (rule round_f64_overflow) simp
  have "calculate_gamma [[F64 (Fin (1 / 2 ^ 600))], [F64 (Fin (1 / 2 ^ 600))]]
       [[F64 (Fin (1 / 2 ^ 600))], [F64 (Fin (1 / 2 ^ 600))]] [0]
       [[F64 (Fin 1), F64 (Fin 0)], [F64 (Fin 0), F64 (Fin 1)]]
     = Inr [[F64 NaN], [F64 NaN]]"
    using under
    by (simp add: calculate_gamma_def gamma_cell_def gamma_denominator_def numpy_simps
        zero_float64_def round_f64_zero)
  moreover have "calculate_gamma [[F64 (Fin (2 ^ 600))]] [[F64 (Fin (2 ^ 600))]] [0] [[F64 (Fin 1)]]
     = Inr [[F64 NaN]]"
    using over
    by (simp add: calculate_gamma_def gamma_cell_def gamma_denominator_def numpy_simps
        zero_float64_def round_f64_zero)
  moreover have "(1 / 2 ^ 600 * (1 / 2 ^ 600) + 1 / 2 ^ 600 * (1 / 2 ^ 600) :: real) \<noteq> 0"
    by simp
  ultimately show ?thesis by blast
qed

text \<open>
  C8, as amended. On float64 lattices of shape N\<times>T, whatever their values, the function
  raises nothing and has no DegenerateNormalization error: it returns an N\<times>T matrix whose
  entry \<gamma>[i][t] is the float64 quotient of \<alpha>[i][t] \<cdot> \<beta>[i][t] by the computed
  denominator; where that denominator is zero the entry is nan or an infinity, and it goes
  to the caller as it is.
\<close>

theorem gamma_returns_nonfinite_on_zero_denominator:
  fixes alpha beta :: "float64 list list"
  assumes al: "has_shape N T alpha" and be: "has_shape N T beta"
    and A: "length A = N" and obs: "length obs_seq = T"
  shows "\<exists>G. calculate_gamma alpha beta obs_seq A = Inr G \<and> has_shape N T G
     \<and> (\<forall>i<N. \<forall>t<T.
           G ! i ! t = alpha ! i ! t * beta ! i ! t
             / py_sum (map (\<lambda>j. alpha ! j ! t * beta ! j ! t) [0..<N])
         \<and> (py_sum (map (\<lambda>j. alpha ! j ! t * beta ! j ! t) [0..<N]) = 0
              \<longrightarrow> \<not> f64_finite (G ! i ! t)))"
proof -
  from calculate_gamma_entries[OF al be A obs] obtain G where
    G: "calculate_gamma alpha beta obs_seq A = Inr G" "has_shape N T G"
      "\<forall>i<N. \<forall>t<T. G ! i ! t = alpha ! i ! t * beta ! i ! t
          / py_sum (map (\<lambda>j. alpha ! j ! t * beta ! j ! t) [0..<N])"
    unfolding py_sum_def by blast
  have "py_sum (map (\<lambda>j. alpha ! j ! t * beta ! j ! t) [0..<N]) = 0 \<longrightarrow> \<not> f64_finite (G ! i ! t)"
    if "i < N" "t < T" for i t
    using G(3) that f64_divide_by_zero by auto
  with G show ?thesis by blast
qed

theorem gamma_returns_nonfinite_on_zero_denominator_witness:
  "has_shape 2 2 [[F64 (Fin (1 / 2)), F64 (Fin 0)], [F64 (Fin (1 / 2)), F64 (Fin 0)]]
   \<and> has_shape 2 2 [[F64 (Fin 1), F64 (Fin 1)], [F64 (Fin 1), F64 (Fin 1)]]
   \<and> length [[F64 (Fin 1), F64 (Fin 0)], [F64 (Fin 0), F64 (Fin 1)]] = 2 \<and> length [0, 1 :: nat] = 2
   \<and> (\<exists>G. calculate_gamma [[F64 (Fin (1 / 2)), F64 (Fin 0)], [F64 (Fin (1 / 2)), F64 (Fin 0)]]
             [[F64 (Fin 1), F64 (Fin 1)], [F64 (Fin 1), F64 (Fin 1)]] [0, 1]
             [[F64 (Fin 1), F64 (Fin 0)], [F64 (Fin 0), F64 (Fin 1)]] = Inr G
         \<and> has_shape 2 2 G \<and> \<not> f64_finite (G ! 0 ! 1) \<and> \<not> f64_finite (G ! 1 ! 1))"
proof -
  let ?al = "[[F64 (Fin (1 / 2)), F64 (Fin 0)], [F64 (Fin (1 / 2)), F64 (Fin 0)]]"
  let ?be = "[[F64 (Fin 1), F64 (Fin 1)], [F64 (Fin 1), F64 (Fin 1)]]"
  let ?A = "[[F64 (Fin 1), F64 (Fin 0)], [F64 (Fin 0), F64 (Fin 1)]]"
  have h1: "has_shape 2 2 ?al" by (simp add: has_shape_def)
  have h2: "has_shape 2 2 ?be" by (simp add: has_shape_def)
  have h3: "length ?A = 2" by simp
  have h4: "length [0, 1 :: nat] = 2" by simp
  from gamma_returns_nonfinite_on_zero_denominator[OF h1 h2 h3 h4] obtain G where
    G: "calculate_gamma ?al ?be [0, 1] ?A = Inr G" "has_shape 2 2 G"
      "\<forall>i<2. \<forall>t<2. py_sum (map (\<lambda>j. ?al ! j ! t * ?be ! j ! t) [0..<2]) = 0
          \<longrightarrow> \<not> f64_finite (G ! i ! t)"
    by blast
  have zero: "py_sum (map (\<lambda>j. ?al ! j ! 1 * ?be ! j ! 1) [0..<2]) = 0"
    by (simp add: py_sum_def upt_rec numeral_2_eq_2 zero_float64_def round_f64_zero)
  have "\<not> f64_finite (G ! 0 ! 1)" using G(3)[rule_format, of 0 1] zero by simp
  moreover have "\<not> f64_finite (G ! 1 ! 1)" using G(3)[rule_format, of 1 1] zero by simp
  ultimately show ?thesis using G(1,2) h1 h2 h3 h4 by blast
qed

text \<open>
  C8, the claim as stated: the function fails when a denominator is zero. With
  \<alpha> = [[1/2, 0], [1/2, 0]] and \<beta> all 1 the second column has denominator 0, and the call
  returns a matrix whose second column is nan.
\<close>

theorem gamma_zero_denominator_returns_nan:
  "calculate_gamma [[F64 (Fin (1 / 2)), F64 (Fin 0)], [F64 (Fin (1 / 2)), F64 (Fin 0)]]
       [[F64 (Fin 1), F64 (Fin 1)], [F64 (Fin 1), F64 (Fin 1)]] [0, 1]
       [[F64 (Fin 1), F64 (Fin 0)], [F64 (Fin 0), F64 (Fin 1)]]
     = Inr [[F64 (Fin (1 / 2)), F64 NaN], [F64 (Fin (1 / 2)), F64 NaN]]"
  by (simp add: calculate_gamma_def gamma_cell_def gamma_denominator_def numpy_simps
      zero_float64_def round_f64_zero round_f64_half round_f64_one)

end
